theory Spec2Isabelle
  imports Complex_Main "HOL-Library.Sublist"
begin

section \<open>ZFS snapshot cleanup tool (zfs-killsnaps.py)\<close>

text \<open>
  A shallow embedding of \<^verbatim>\<open>src/zfs-killsnaps/zfs-killsnaps.py\<close>.

  Everything outside the script is an explicit input:
  \<^item> the shell (\<^verbatim>\<open>subprocess.run(cmd, shell=True, ...)\<close>) answers a command text with
    its raw stdout, stderr and return code;
  \<^item> \<^verbatim>\<open>datetime.strptime\<close> is a library function taken as a parameter: it maps the
    data string and the format string to a point in time, or fails (ValueError);
  \<^item> a naive \<^verbatim>\<open>datetime\<close> is the number of microseconds on its time line, so that the
    difference of two of them is a \<^verbatim>\<open>timedelta\<close> whose \<^verbatim>\<open>.days\<close> is the floor of the
    difference over one day; \<^verbatim>\<open>datetime.now()\<close> is the reading \<open>now\<close>;
  \<^item> the file system is the set of paths that exist;
  \<^item> the override document is what \<^verbatim>\<open>yaml.safe_load\<close> returns: nothing (an empty
    document) or a mapping from keys to values, a value being a string or a map from
    pattern names to day counts.
  Python strings are lists of characters (code points below 256).
  Everything the script does to the outside is recorded, in order, in a trace.
\<close>

subsection \<open>Data\<close>

datatype exn =
    SystemExit int
  | ValueError
  | YAMLError
  | FileNotFoundError
  | TypeError
  | AttributeError
  | KeyError

datatype level = INFO | WARNING | ERROR

datatype cfgval = Str string | Policies "string \<rightharpoonup> int"

type_synonym config = "string \<rightharpoonup> cfgval"

datatype event =
    Log level string
  | Run string "string \<times> string \<times> int"
  | Create string
  | Remove string
  | Notifier string
  | Mail string

record world =
  fs :: "string set"
  trace :: "event list"

record env =
  shell :: "string \<Rightarrow> string \<times> string \<times> int"
  strptime :: "string \<Rightarrow> string \<Rightarrow> int option"
  now :: int
  safe_load :: "string \<Rightarrow> exn + config option"
  which_mail :: bool

record args =
  arg_pattern :: string
  arg_age :: "int option"
  arg_recursive :: bool
  arg_dry_run :: bool
  arg_pool :: "string option"
  arg_config :: string

subsection \<open>Python string operations\<close>

definition TAB :: char where
  "TAB = CHR 0x09"

text \<open>\<^verbatim>\<open>str.isspace\<close> on one character: the white space that \<^verbatim>\<open>str.strip()\<close> removes.\<close>

definition isspace :: "char \<Rightarrow> bool" where
  "isspace c \<longleftrightarrow> c \<in> {CHR 0x09, CHR 0x0A, CHR 0x0B, CHR 0x0C, CHR 0x0D,
                     CHR 0x1C, CHR 0x1D, CHR 0x1E, CHR 0x1F, CHR 0x20, CHR 0x85, CHR 0xA0}"

definition strip :: "string \<Rightarrow> string" where
  "strip s = rev (dropWhile isspace (rev (dropWhile isspace s)))"

text \<open>The line boundaries of \<^verbatim>\<open>str.splitlines()\<close>.\<close>

definition is_linebreak :: "char \<Rightarrow> bool" where
  "is_linebreak c \<longleftrightarrow> c \<in> {CHR 0x0A, CHR 0x0B, CHR 0x0C, CHR 0x0D,
                          CHR 0x1C, CHR 0x1D, CHR 0x1E, CHR 0x85}"

fun splitlines_from :: "string \<Rightarrow> string \<Rightarrow> string list" where
  "splitlines_from cur [] = (if cur = [] then [] else [cur])"
| "splitlines_from cur [c] =
     (if is_linebreak c then [cur] else [cur @ [c]])"
| "splitlines_from cur (c # d # cs) =
     (if c = CHR 0x0D \<and> d = CHR 0x0A then cur # splitlines_from [] cs
      else if is_linebreak c then cur # splitlines_from [] (d # cs)
      else splitlines_from (cur @ [c]) (d # cs))"

definition splitlines :: "string \<Rightarrow> string list" where
  "splitlines s = splitlines_from [] s"

text \<open>\<^verbatim>\<open>s.split(sep)\<close> for a separator of one character: never the empty list.\<close>

fun split_from :: "char \<Rightarrow> string \<Rightarrow> string \<Rightarrow> string list" where
  "split_from sep cur [] = [cur]"
| "split_from sep cur (c # cs) =
     (if c = sep then cur # split_from sep [] cs else split_from sep (cur @ [c]) cs)"

definition split :: "string \<Rightarrow> char \<Rightarrow> string list" where
  "split s sep = split_from sep [] s"

text \<open>\<^verbatim>\<open>s.startswith(p)\<close> and \<^verbatim>\<open>p in s\<close>.\<close>

definition startswith :: "string \<Rightarrow> string \<Rightarrow> bool" where
  "startswith s p \<longleftrightarrow> take (length p) s = p"

fun py_in :: "string \<Rightarrow> string \<Rightarrow> bool" where
  "py_in p [] \<longleftrightarrow> p = []"
| "py_in p (c # cs) \<longleftrightarrow> startswith (c # cs) p \<or> py_in p cs"

text \<open>\<^verbatim>\<open>str(n)\<close> for a counter that is never negative.\<close>

definition digit :: "nat \<Rightarrow> char" where
  "digit d = char_of (48 + d)"

function str_nat :: "nat \<Rightarrow> string" where
  "str_nat n = (if n < 10 then [digit n] else str_nat (n div 10) @ [digit (n mod 10)])"
  by pat_completeness auto
termination
  by (relation "measure id") auto

subsection \<open>Configuration\<close>

definition DEFAULT_CONFIG_PATH :: string where
  "DEFAULT_CONFIG_PATH = ''/etc/zfs-killsnaps.yaml''"

definition DEFAULT_POLICIES :: "string \<rightharpoonup> int" where
  "DEFAULT_POLICIES =
     [''daily'' \<mapsto> 7, ''weekly'' \<mapsto> 30, ''monthly'' \<mapsto> 90, ''autosnap'' \<mapsto> 14]"

definition DEFAULT_CONFIG :: config where
  "DEFAULT_CONFIG =
     [''logfile'' \<mapsto> Str ''/var/log/zfs-killsnaps.log'',
      ''lockfile'' \<mapsto> Str ''/var/run/zfs-killsnaps.lock'',
      ''email_recipient'' \<mapsto> Str ''admin@example.com'',
      ''retention_policies'' \<mapsto> Policies DEFAULT_POLICIES]"

text \<open>
  \<^verbatim>\<open>config.update(data or {})\<close>: an empty document and an empty mapping are both falsy,
  and updating with the empty mapping changes nothing.
\<close>

definition load_config :: "env \<Rightarrow> string \<Rightarrow> world \<Rightarrow> exn + config" where
  "load_config e path st =
     (if path \<notin> fs st then Inr DEFAULT_CONFIG
      else case safe_load e path of
             Inl x \<Rightarrow> Inl x
           | Inr data \<Rightarrow>
               Inr (DEFAULT_CONFIG ++ (case data of None \<Rightarrow> Map.empty | Some m \<Rightarrow> m)))"

subsection \<open>Logging and the external tool\<close>

definition logging :: "level \<Rightarrow> string \<Rightarrow> world \<Rightarrow> world" where
  "logging l msg st = st\<lparr>trace := trace st @ [Log l msg]\<rparr>"

text \<open>\<^verbatim>\<open>logging.basicConfig(filename=...)\<close> opens the log file for appending.\<close>

definition basicConfig :: "string \<Rightarrow> world \<Rightarrow> world" where
  "basicConfig filename st = st\<lparr>fs := insert filename (fs st)\<rparr>"

definition run_cmd :: "env \<Rightarrow> string \<Rightarrow> world \<Rightarrow> (string \<times> string \<times> int) \<times> world" where
  "run_cmd e cmd st =
     (case shell e cmd of (out, err, code) \<Rightarrow>
        ((strip out, strip err, code),
         st\<lparr>trace := trace st @ [Run cmd (strip out, strip err, code)]\<rparr>))"

subsection \<open>Age check\<close>

definition us_per_day :: int where
  "us_per_day = 86400000000"

definition parse_creation_date :: "env \<Rightarrow> string \<Rightarrow> exn + int" where
  "parse_creation_date e date_str =
     (case strptime e date_str ''%a %b %d %H:%M %Y'' of
        None \<Rightarrow> Inl ValueError
      | Some t \<Rightarrow> Inr t)"

definition is_older_than :: "env \<Rightarrow> string \<Rightarrow> int \<Rightarrow> exn + bool" where
  "is_older_than e creation_str days =
     (case parse_creation_date e creation_str of
        Inl x \<Rightarrow> Inl x
      | Inr creation_time \<Rightarrow> Inr ((now e - creation_time) div us_per_day \<ge> days))"

subsection \<open>Enumerating snapshots\<close>

definition list_cmd :: string where
  "list_cmd = ''zfs list -H -t snapshot''"

fun filter_lines :: "string \<Rightarrow> string option \<Rightarrow> string list \<Rightarrow> string list \<Rightarrow> string list" where
  "filter_lines pattern pool [] snapshots = snapshots"
| "filter_lines pattern pool (line # lines) snapshots =
     (let name = hd (split line TAB) in
      if py_in pattern name \<and>
         (case pool of
            None \<Rightarrow> True
          | Some p \<Rightarrow> p = [] \<or> startswith name (p @ ''@'') \<or> startswith name (p @ ''/''))
      then filter_lines pattern pool lines (snapshots @ [name])
      else filter_lines pattern pool lines snapshots)"

definition load_snapshots ::
  "env \<Rightarrow> string \<Rightarrow> string option \<Rightarrow> world \<Rightarrow> (exn + string list) \<times> world" where
  "load_snapshots e pattern pool st =
     (case run_cmd e list_cmd st of ((out, err, code), st1) \<Rightarrow>
        if code \<noteq> 0
        then (Inl (SystemExit 1), logging ERROR (''Failed to list snapshots: '' @ err) st1)
        else (Inr (filter_lines pattern pool (splitlines out) []), st1))"

definition creation_cmd :: "string \<Rightarrow> string" where
  "creation_cmd snapshot = ''zfs get -H -o value creation '' @ snapshot"

definition get_snapshot_creation :: "env \<Rightarrow> string \<Rightarrow> world \<Rightarrow> string option \<times> world" where
  "get_snapshot_creation e snapshot st =
     (case run_cmd e (creation_cmd snapshot) st of ((out, err, code), st1) \<Rightarrow>
        if code \<noteq> 0
        then (None,
              logging WARNING
                (''Could not get creation time for '' @ snapshot @ '': '' @ err) st1)
        else (Some out, st1))"

subsection \<open>Notification and the run lock\<close>

definition send_email :: "env \<Rightarrow> string \<Rightarrow> cfgval \<Rightarrow> world \<Rightarrow> (exn + unit) \<times> world" where
  "send_email e logfile recipient st =
     (let st1 = st\<lparr>trace := trace st @ [Notifier logfile]\<rparr> in
      if which_mail e \<and> logfile \<in> fs st1
      then (case recipient of
              Str r \<Rightarrow> (Inr (), st1\<lparr>trace := trace st1 @ [Mail r]\<rparr>)
            | Policies _ \<Rightarrow> (Inl TypeError, st1))
      else (Inr (), st1))"

definition os_remove :: "string \<Rightarrow> world \<Rightarrow> (exn + unit) \<times> world" where
  "os_remove path st =
     (if path \<in> fs st
      then (Inr (), st\<lparr>fs := fs st - {path}, trace := trace st @ [Remove path]\<rparr>)
      else (Inl FileNotFoundError, st))"

definition lock_or_exit ::
  "string \<Rightarrow> world \<Rightarrow> (exn + (world \<Rightarrow> (exn + unit) \<times> world)) \<times> world" where
  "lock_or_exit lockfile st =
     (if lockfile \<in> fs st
      then (Inl (SystemExit 1), logging ERROR ''Lock file exists. Script already running.'' st)
      else (Inr (\<lambda>w. os_remove lockfile w),
            st\<lparr>fs := insert lockfile (fs st), trace := trace st @ [Create lockfile]\<rparr>))"

subsection \<open>Retention policy\<close>

text \<open>\<^verbatim>\<open>policies.get(pattern, 0)\<close>; a value that is no mapping has no \<^verbatim>\<open>get\<close>.\<close>

definition get_policy_age :: "string \<Rightarrow> cfgval \<Rightarrow> exn + int" where
  "get_policy_age pattern policies =
     (case policies of
        Policies p \<Rightarrow> Inr (case p pattern of None \<Rightarrow> 0 | Some d \<Rightarrow> d)
      | Str _ \<Rightarrow> Inl AttributeError)"

text \<open>
  Line 166, \<^verbatim>\<open>age_days = args.age or get_policy_age(args.pattern, config['retention_policies'])\<close>:
  Python's \<^verbatim>\<open>or\<close> takes its right operand when the left one is \<^verbatim>\<open>None\<close> or \<^verbatim>\<open>0\<close>.
  The result is an integer, which \<^verbatim>\<open>int(age_days)\<close> in the call leaves as it is.
\<close>

definition age_days :: "args \<Rightarrow> config \<Rightarrow> exn + int" where
  "age_days a config =
     (if arg_age a \<noteq> None \<and> arg_age a \<noteq> Some 0 then Inr (the (arg_age a))
      else case config ''retention_policies'' of
             None \<Rightarrow> Inl KeyError
           | Some policies \<Rightarrow> get_policy_age (arg_pattern a) policies)"

subsection \<open>Destroying snapshots\<close>

definition destroy_cmd :: "bool \<Rightarrow> string \<Rightarrow> string" where
  "destroy_cmd recursive snap =
     ''zfs destroy '' @ (if recursive then ''-r'' else '''') @ '' '' @ snap"

text \<open>
  The body of the loop over the snapshots (lines 128 to 142) for one snapshot and the
  current counter; \<^verbatim>\<open>continue\<close> ends the body with the counter unchanged.
\<close>

definition cleanup_step ::
  "env \<Rightarrow> int \<Rightarrow> bool \<Rightarrow> bool \<Rightarrow> string \<Rightarrow> nat \<Rightarrow> world \<Rightarrow> (exn + nat) \<times> world" where
  "cleanup_step e age recursive dry_run snap destroyed st =
     (case get_snapshot_creation e snap st of (creation, st1) \<Rightarrow>
        (case creation of
           None \<Rightarrow> (Inr destroyed, st1)
         | Some creation_str \<Rightarrow>
             if creation_str = [] then (Inr destroyed, st1)
             else (case is_older_than e creation_str age of
                     Inl x \<Rightarrow> (Inl x, st1)
                   | Inr older \<Rightarrow>
                       if \<not> older then (Inr destroyed, st1)
                       else
                         (let st2 = logging INFO
                                (''Found snapshot: '' @ snap @ '' (created '' @ creation_str
                                   @ '')'') st1
                          in if dry_run
                             then (Inr destroyed,
                                   logging INFO (''[Dry-run] Would destroy '' @ snap) st2)
                             else (case run_cmd e (destroy_cmd recursive snap) st2 of
                                     ((out, err, code), st3) \<Rightarrow>
                                       if code = 0
                                       then (Inr (destroyed + 1),
                                             logging INFO (''Destroyed: '' @ snap) st3)
                                       else (Inr destroyed,
                                             logging ERROR
                                               (''Failed to destroy '' @ snap @ '': '' @ err)
                                               st3))))))"

fun cleanup_loop ::
  "env \<Rightarrow> int \<Rightarrow> bool \<Rightarrow> bool \<Rightarrow> string list \<Rightarrow> nat \<Rightarrow> world \<Rightarrow> (exn + nat) \<times> world" where
  "cleanup_loop e age recursive dry_run [] destroyed st = (Inr destroyed, st)"
| "cleanup_loop e age recursive dry_run (snap # snaps) destroyed st =
     (case cleanup_step e age recursive dry_run snap destroyed st of
        (Inl x, st1) \<Rightarrow> (Inl x, st1)
      | (Inr destroyed1, st1) \<Rightarrow> cleanup_loop e age recursive dry_run snaps destroyed1 st1)"

definition cleanup_snapshots ::
  "env \<Rightarrow> string \<Rightarrow> int \<Rightarrow> bool \<Rightarrow> bool \<Rightarrow> string option \<Rightarrow> config \<Rightarrow> world
     \<Rightarrow> (exn + unit) \<times> world" where
  "cleanup_snapshots e pattern age recursive dry_run pool config st =
     (case load_snapshots e pattern pool st of
        (Inl x, st1) \<Rightarrow> (Inl x, st1)
      | (Inr snapshots, st1) \<Rightarrow>
          if snapshots = []
          then (Inr (),
                logging INFO (''No snapshots matching '' @ [CHR 0x27] @ pattern @ [CHR 0x27]
                                @ '' found.'') st1)
          else (case cleanup_loop e age recursive dry_run snapshots 0 st1 of
                  (Inl x, st2) \<Rightarrow> (Inl x, st2)
                | (Inr destroyed, st2) \<Rightarrow>
                    (Inr (),
                     logging INFO (''Total snapshots destroyed: '' @ str_nat destroyed) st2)))"

subsection \<open>The script body\<close>

text \<open>A configuration value used as a path or address must be a string.\<close>

definition path_of :: "cfgval option \<Rightarrow> exn + string" where
  "path_of v = (case v of None \<Rightarrow> Inl KeyError | Some (Str s) \<Rightarrow> Inr s
                | Some (Policies _) \<Rightarrow> Inl TypeError)"

text \<open>The status of the process: an uncaught exception other than SystemExit gives 1.\<close>

definition exit_status :: "exn + unit \<Rightarrow> int" where
  "exit_status r = (case r of Inr _ \<Rightarrow> 0 | Inl (SystemExit n) \<Rightarrow> n | Inl _ \<Rightarrow> 1)"

text \<open>
  \<^verbatim>\<open>try: body finally: handler\<close>: the handler always runs; an exception of the handler
  replaces the outcome of the body.
\<close>

definition try_finally ::
  "(world \<Rightarrow> (exn + unit) \<times> world) \<Rightarrow> (world \<Rightarrow> (exn + unit) \<times> world)
     \<Rightarrow> world \<Rightarrow> (exn + unit) \<times> world" where
  "try_finally body handler st =
     (case body st of (r, st1) \<Rightarrow>
        (case handler st1 of
           (Inl x, st2) \<Rightarrow> (Inl x, st2)
         | (Inr _, st2) \<Rightarrow> (r, st2)))"

definition main_try :: "env \<Rightarrow> args \<Rightarrow> config \<Rightarrow> world \<Rightarrow> (exn + unit) \<times> world" where
  "main_try e a config st =
     (case age_days a config of
        Inl x \<Rightarrow> (Inl x, st)
      | Inr age \<Rightarrow>
          cleanup_snapshots e (arg_pattern a) age (arg_recursive a) (arg_dry_run a)
            (arg_pool a) config st)"

definition main_finally ::
  "env \<Rightarrow> (world \<Rightarrow> (exn + unit) \<times> world) \<Rightarrow> string \<Rightarrow> config \<Rightarrow> world
     \<Rightarrow> (exn + unit) \<times> world" where
  "main_finally e unlock logfile config st =
     (case unlock st of
        (Inl x, st1) \<Rightarrow> (Inl x, st1)
      | (Inr _, st1) \<Rightarrow>
          (case config ''email_recipient'' of
             None \<Rightarrow> (Inl KeyError, st1)
           | Some recipient \<Rightarrow> send_email e logfile recipient st1))"

definition main :: "env \<Rightarrow> args \<Rightarrow> world \<Rightarrow> int \<times> world" where
  "main e a st =
     (case load_config e (arg_config a) st of
        Inl x \<Rightarrow> (exit_status (Inl x), st)
      | Inr config \<Rightarrow>
          (case path_of (config ''logfile'') of
             Inl x \<Rightarrow> (exit_status (Inl x), st)
           | Inr logfile \<Rightarrow>
               (let st0 = basicConfig logfile st in
                case path_of (config ''lockfile'') of
                  Inl x \<Rightarrow> (exit_status (Inl x), st0)
                | Inr lockfile \<Rightarrow>
                    (case lock_or_exit lockfile st0 of
                       (Inl x, st1) \<Rightarrow> (exit_status (Inl x), st1)
                     | (Inr unlock, st1) \<Rightarrow>
                         (case try_finally (main_try e a config)
                                 (main_finally e unlock logfile config) st1 of
                            (r, st2) \<Rightarrow> (exit_status r, st2))))))"

subsection \<open>Observations on a run\<close>

text \<open>
  A snapshot passes the guard of the loop (\<^verbatim>\<open>if not creation_str or not is_older_than(...)\<close>
  does not skip it) when its creation time is fetched with status 0, is not the empty
  string, and the age check returns true.
\<close>

definition eligible :: "env \<Rightarrow> int \<Rightarrow> string \<Rightarrow> bool" where
  "eligible e age snap =
     (case shell e (creation_cmd snap) of (out, err, code) \<Rightarrow>
        code = 0 \<and> strip out \<noteq> [] \<and> is_older_than e (strip out) age = Inr True)"

text \<open>The creation time of the snapshot cannot make \<^verbatim>\<open>strptime\<close> raise.\<close>

definition parses :: "env \<Rightarrow> string \<Rightarrow> bool" where
  "parses e snap =
     (case shell e (creation_cmd snap) of (out, err, code) \<Rightarrow>
        code = 0 \<and> strip out \<noteq> []
          \<longrightarrow> strptime e (strip out) ''%a %b %d %H:%M %Y'' \<noteq> None)"

definition is_destroy :: "event \<Rightarrow> bool" where
  "is_destroy ev = (case ev of Run cmd res \<Rightarrow> startswith cmd ''zfs destroy '' | _ \<Rightarrow> False)"

definition is_successful_destroy :: "event \<Rightarrow> bool" where
  "is_successful_destroy ev =
     (case ev of Run cmd res \<Rightarrow> startswith cmd ''zfs destroy '' \<and> snd (snd res) = 0
      | _ \<Rightarrow> False)"

definition is_would_destroy :: "event \<Rightarrow> bool" where
  "is_would_destroy ev =
     (case ev of Log l msg \<Rightarrow> startswith msg ''[Dry-run] Would destroy '' | _ \<Rightarrow> False)"

definition is_total :: "event \<Rightarrow> bool" where
  "is_total ev =
     (case ev of Log l msg \<Rightarrow> startswith msg ''Total snapshots destroyed: '' | _ \<Rightarrow> False)"

definition is_release :: "event \<Rightarrow> bool" where
  "is_release ev = (case ev of Remove p \<Rightarrow> True | _ \<Rightarrow> False)"

definition is_notifier :: "event \<Rightarrow> bool" where
  "is_notifier ev = (case ev of Notifier l \<Rightarrow> True | _ \<Rightarrow> False)"

text \<open>
  Notions of the specification, in its words: the name portion of an identifier is the
  part after \<^verbatim>\<open>@\<close>; the elapsed whole days are the floor of the elapsed time in days.
\<close>

definition spec_name_portion :: "string \<Rightarrow> string" where
  "spec_name_portion x = tl (dropWhile (\<lambda>c. c \<noteq> CHR ''@'') x)"

definition spec_elapsed_days :: "int \<Rightarrow> int \<Rightarrow> int" where
  "spec_elapsed_days t_now t_creation =
     \<lfloor>real_of_int (t_now - t_creation) / real_of_int us_per_day\<rfloor>"

text \<open>
  The events that a run from \<open>st\<close> to \<open>st'\<close> has added; a run extends the state
  when it leaves the file system as it was and only adds events.
\<close>

definition run_events :: "world \<Rightarrow> world \<Rightarrow> event list" where
  "run_events st st' = drop (length (trace st)) (trace st')"

definition extends :: "world \<Rightarrow> world \<Rightarrow> bool" where
  "extends st st' \<longleftrightarrow> st' = st\<lparr>trace := trace st @ run_events st st'\<rparr>"

subsection \<open>Test environments\<close>

text \<open>
  The clock reads day 100. Three creation times are known to \<^verbatim>\<open>strptime\<close>, 10, 30 and 45
  days before; any other string makes it raise.
\<close>

definition test_strptime :: "string \<Rightarrow> string \<Rightarrow> int option" where
  "test_strptime date_str format =
     (if format \<noteq> ''%a %b %d %H:%M %Y'' then None
      else if date_str = ''Sun Mar 30 03:00 2025'' then Some (90 * us_per_day)
      else if date_str = ''Mon Mar 10 03:00 2025'' then Some (70 * us_per_day)
      else if date_str = ''Sun Feb 23 03:00 2025'' then Some (55 * us_per_day)
      else None)"

definition test_env :: "(string \<Rightarrow> string \<times> string \<times> int) \<Rightarrow> env" where
  "test_env sh =
     \<lparr>shell = sh, strptime = test_strptime, now = 100 * us_per_day,
      safe_load = (\<lambda>path. Inl YAMLError), which_mail = True\<rparr>"

definition test_args :: "bool \<Rightarrow> args" where
  "test_args dry_run =
     \<lparr>arg_pattern = ''weekly'', arg_age = None, arg_recursive = False,
      arg_dry_run = dry_run, arg_pool = None, arg_config = DEFAULT_CONFIG_PATH\<rparr>"

definition test_world :: world where
  "test_world = \<lparr>fs = {}, trace = []\<rparr>"

text \<open>A world where the configuration file exists, and one where a lock is held.\<close>

definition world_with_config :: world where
  "world_with_config = \<lparr>fs = {DEFAULT_CONFIG_PATH}, trace = []\<rparr>"

definition world_locked :: world where
  "world_locked = \<lparr>fs = {''/var/run/zfs-killsnaps.lock''}, trace = []\<rparr>"

text \<open>An override document that sets only the retention policies, to one entry.\<close>

definition test_override :: config where
  "test_override = [''retention_policies'' \<mapsto> Policies [''hourly'' \<mapsto> 2]]"

text \<open>Three weekly snapshots of 10, 30 and 45 days; every destroy succeeds.\<close>

definition listing_three :: string where
  "listing_three =
     ''tank@weekly-1'' @ [TAB] @ ''8K'' @ [CHR 0x0A] @
     ''tank@weekly-2'' @ [TAB] @ ''8K'' @ [CHR 0x0A] @
     ''tank@weekly-3'' @ [TAB] @ ''8K'' @ [CHR 0x0A]"

definition shell_three :: "string \<Rightarrow> string \<times> string \<times> int" where
  "shell_three cmd =
     (if cmd = list_cmd then (listing_three, [], 0)
      else if cmd = creation_cmd ''tank@weekly-1'' then (''Sun Mar 30 03:00 2025'', [], 0)
      else if cmd = creation_cmd ''tank@weekly-2'' then (''Mon Mar 10 03:00 2025'', [], 0)
      else if cmd = creation_cmd ''tank@weekly-3'' then (''Sun Feb 23 03:00 2025'', [], 0)
      else ([], [], 0))"

text \<open>The creation time of the first snapshot is printed as \<^verbatim>\<open>-\<close>.\<close>

definition shell_unparsable :: "string \<Rightarrow> string \<times> string \<times> int" where
  "shell_unparsable cmd =
     (if cmd = list_cmd
      then (''tank@weekly-1'' @ [CHR 0x0A] @ ''tank@weekly-2'' @ [CHR 0x0A], [], 0)
      else if cmd = creation_cmd ''tank@weekly-1'' then (''-'', [], 0)
      else if cmd = creation_cmd ''tank@weekly-2'' then (''Sun Feb 23 03:00 2025'', [], 0)
      else ([], [], 0))"

text \<open>A daily snapshot of a dataset called weekly.\<close>

definition shell_dataset :: "string \<Rightarrow> string \<times> string \<times> int" where
  "shell_dataset cmd =
     (if cmd = list_cmd then (''tank/weekly@daily-1'' @ [TAB] @ ''8K'' @ [CHR 0x0A], [], 0)
      else ([], [], 0))"

text \<open>Only a daily snapshot exists.\<close>

definition listing_daily :: string where
  "listing_daily = ''tank@daily-1'' @ [TAB] @ ''8K'' @ [CHR 0x0A]"

definition shell_daily :: "string \<Rightarrow> string \<times> string \<times> int" where
  "shell_daily cmd =
     (if cmd = list_cmd then (listing_daily, [], 0)
      else ([], [], 0))"

text \<open>The listing fails.\<close>

definition shell_broken :: "string \<Rightarrow> string \<times> string \<times> int" where
  "shell_broken cmd = ([], ''cannot open pool'' @ [CHR 0x0A], 1)"

section \<open>Properties\<close>

subsection \<open>Strings\<close>

lemma hd_split_from: "hd (split_from sep cur s) = cur @ takeWhile (\<lambda>c. c \<noteq> sep) s"
  by (induction s arbitrary: cur) auto

lemma hd_split: "hd (split s sep) = takeWhile (\<lambda>c. c \<noteq> sep) s"
  by (simp add: split_def hd_split_from)

lemma startswith_prefix: "startswith s p \<longleftrightarrow> prefix p s"
  unfolding startswith_def prefix_def
  by (metis append_eq_conv_conj append_take_drop_id)

lemma py_in_sublist: "py_in p s \<longleftrightarrow> sublist p s"
  by (induction s) (auto simp: startswith_prefix sublist_Cons_right)

subsection \<open>Configuration loader\<close>

text \<open>
  Claim C5. When the override file exists and parses to a mapping, the loaded
  configuration has, at every top-level key, the value of the override if the override has
  the key, and the built-in default otherwise. In particular an override that sets
  \<^verbatim>\<open>retention_policies\<close> to a non-empty map yields exactly that map: no default entry is
  merged in.
\<close>

theorem load_config_shallow_merge:
  assumes "path \<in> fs st" and "safe_load e path = Inr (Some override)"
  shows "load_config e path st
           = Inr (\<lambda>k. case override k of Some v \<Rightarrow> Some v | None \<Rightarrow> DEFAULT_CONFIG k)
       \<and> (\<forall>cfg p. load_config e path st = Inr cfg
                  \<and> override ''retention_policies'' = Some (Policies p) \<and> p \<noteq> Map.empty
               \<longrightarrow> cfg ''retention_policies'' = Some (Policies p))"
proof -
  have merge: "DEFAULT_CONFIG ++ override
                 = (\<lambda>k. case override k of Some v \<Rightarrow> Some v | None \<Rightarrow> DEFAULT_CONFIG k)"
    by (rule ext) (simp add: map_add_def split: option.splits)
  have "load_config e path st = Inr (DEFAULT_CONFIG ++ override)"
    using assms by (simp add: load_config_def)
  then show ?thesis
    using merge by auto
qed

theorem load_config_shallow_merge_witness:
  "DEFAULT_CONFIG_PATH \<in> fs \<lparr>fs = {DEFAULT_CONFIG_PATH}, trace = []\<rparr>
   \<and> load_config ((test_env shell_daily)\<lparr>safe_load := \<lambda>path. Inr (Some test_override)\<rparr>)
        DEFAULT_CONFIG_PATH \<lparr>fs = {DEFAULT_CONFIG_PATH}, trace = []\<rparr>
      = Inr (\<lambda>k. case test_override k of Some v \<Rightarrow> Some v | None \<Rightarrow> DEFAULT_CONFIG k)"
  using load_config_shallow_merge
    [of DEFAULT_CONFIG_PATH "\<lparr>fs = {DEFAULT_CONFIG_PATH}, trace = []\<rparr>"
        "(test_env shell_daily)\<lparr>safe_load := \<lambda>path. Inr (Some test_override)\<rparr>"
        test_override]
  by simp

subsection \<open>Age check and retention threshold\<close>

lemma spec_elapsed_days_div: "spec_elapsed_days a b = (a - b) div us_per_day"
  unfolding spec_elapsed_days_def by (rule floor_divide_of_int_eq)

text \<open>
  Claim C6. For a creation time that parses, the age check returns true exactly when the
  elapsed whole days, the floor of the elapsed time in days, are at least the threshold.
  A snapshot created exactly \<open>n\<close> days before now passes the threshold \<open>n\<close> and fails the
  threshold \<open>n + 1\<close>.
\<close>

theorem is_older_than_elapsed_days:
  assumes "strptime e creation_str ''%a %b %d %H:%M %Y'' = Some t"
  shows "is_older_than e creation_str n = Inr (spec_elapsed_days (now e) t \<ge> n)
       \<and> (now e - t = n * us_per_day \<longrightarrow>
             is_older_than e creation_str n = Inr True
           \<and> is_older_than e creation_str (n + 1) = Inr False)"
  using assms
  by (simp add: is_older_than_def parse_creation_date_def spec_elapsed_days_div)
     (simp add: us_per_day_def)

theorem is_older_than_elapsed_days_witness:
  "strptime (test_env shell_three) ''Mon Mar 10 03:00 2025'' ''%a %b %d %H:%M %Y''
     = Some (70 * us_per_day)
   \<and> now (test_env shell_three) - 70 * us_per_day = 30 * us_per_day
   \<and> is_older_than (test_env shell_three) ''Mon Mar 10 03:00 2025'' 30 = Inr True
   \<and> is_older_than (test_env shell_three) ''Mon Mar 10 03:00 2025'' (30 + 1) = Inr False"
proof -
  have h: "strptime (test_env shell_three) ''Mon Mar 10 03:00 2025'' ''%a %b %d %H:%M %Y''
             = Some (70 * us_per_day)"
    by (simp add: test_env_def test_strptime_def)
  have d: "now (test_env shell_three) - 70 * us_per_day = 30 * us_per_day"
    by (simp add: test_env_def)
  from is_older_than_elapsed_days [OF h, of 30] d
  have "is_older_than (test_env shell_three) ''Mon Mar 10 03:00 2025'' 30 = Inr True
      \<and> is_older_than (test_env shell_three) ''Mon Mar 10 03:00 2025'' (30 + 1) = Inr False"
    by blast
  then show ?thesis
    using h d by blast
qed

text \<open>
  Claim C10. Without the age flag, a pattern that the retention policies do not list gets
  the threshold 0, and then every snapshot whose creation time is fetched, parses and is
  not in the future passes the guard of the loop.
\<close>

theorem absent_pattern_threshold_zero:
  assumes "arg_age a = None"
    and "config ''retention_policies'' = Some (Policies p)"
    and "p (arg_pattern a) = None"
  shows "age_days a config = Inr 0
       \<and> (\<forall>snap out err t.
             shell e (creation_cmd snap) = (out, err, 0) \<and> strip out \<noteq> []
               \<and> strptime e (strip out) ''%a %b %d %H:%M %Y'' = Some t \<and> t \<le> now e
             \<longrightarrow> eligible e 0 snap)"
  using assms
  by (auto simp: age_days_def get_policy_age_def eligible_def is_older_than_def
        parse_creation_date_def us_per_day_def pos_imp_zdiv_nonneg_iff)

theorem absent_pattern_threshold_zero_witness:
  "arg_age ((test_args False)\<lparr>arg_pattern := ''hourly''\<rparr>) = None
   \<and> DEFAULT_CONFIG ''retention_policies'' = Some (Policies DEFAULT_POLICIES)
   \<and> DEFAULT_POLICIES ''hourly'' = None
   \<and> age_days ((test_args False)\<lparr>arg_pattern := ''hourly''\<rparr>) DEFAULT_CONFIG = Inr 0
   \<and> eligible (test_env shell_three) 0 ''tank@weekly-1''"
proof -
  have h1: "arg_age ((test_args False)\<lparr>arg_pattern := ''hourly''\<rparr>) = None"
    by (simp add: test_args_def)
  have h2: "DEFAULT_CONFIG ''retention_policies'' = Some (Policies DEFAULT_POLICIES)"
    by (simp add: DEFAULT_CONFIG_def)
  have h3: "DEFAULT_POLICIES (arg_pattern ((test_args False)\<lparr>arg_pattern := ''hourly''\<rparr>)) = None"
    by (simp add: DEFAULT_POLICIES_def)
  have s: "shell (test_env shell_three) (creation_cmd ''tank@weekly-1'')
             = (''Sun Mar 30 03:00 2025'', [], 0)"
    by (simp add: test_env_def shell_three_def creation_cmd_def list_cmd_def)
  have st: "strip ''Sun Mar 30 03:00 2025'' = ''Sun Mar 30 03:00 2025''"
    by (simp add: strip_def isspace_def)
  have p: "strptime (test_env shell_three) ''Sun Mar 30 03:00 2025'' ''%a %b %d %H:%M %Y''
             = Some (90 * us_per_day)"
    by (simp add: test_env_def test_strptime_def)
  have le: "90 * us_per_day \<le> now (test_env shell_three)"
    by (simp add: test_env_def us_per_day_def)
  from absent_pattern_threshold_zero
         [of "(test_args False)\<lparr>arg_pattern := ''hourly''\<rparr>" DEFAULT_CONFIG DEFAULT_POLICIES
             "test_env shell_three", OF h1 h2 h3]
  have "age_days ((test_args False)\<lparr>arg_pattern := ''hourly''\<rparr>) DEFAULT_CONFIG = Inr 0"
    and "eligible (test_env shell_three) 0 ''tank@weekly-1''"
    using s st p le by auto
  then show ?thesis
    using h1 h2 h3 by simp
qed

lemma age_flag_nonzero_overrides:
  "arg_age a = Some n \<Longrightarrow> n \<noteq> 0 \<Longrightarrow> age_days a config = Inr n"
  by (simp add: age_days_def)

text \<open>
  Claim C4. With \<^verbatim>\<open>--age 0\<close> and the pattern \<^verbatim>\<open>weekly\<close>, the threshold that the run uses is
  the 30 days of the default policy, not the 0 of the flag: \<^verbatim>\<open>args.age or ...\<close> takes the
  policy lookup whenever the flag is 0.
\<close>

theorem age_flag_zero_uses_policy:
  "age_days ((test_args False)\<lparr>arg_age := Some 0\<rparr>) DEFAULT_CONFIG = Inr 30"
  by (simp add: age_days_def get_policy_age_def test_args_def DEFAULT_CONFIG_def
        DEFAULT_POLICIES_def)

subsection \<open>Run lock\<close>

text \<open>
  Claim C7, as the code has it. On a path without a marker, acquisition returns a release
  handle; the handle removes the marker when it exists, and raises FileNotFoundError to
  its caller, changing nothing, when the marker is already gone.
\<close>

theorem release_raises_when_marker_gone:
  assumes "lockfile \<notin> fs st"
  shows "\<exists>unlock st1. lock_or_exit lockfile st = (Inr unlock, st1)
          \<and> (\<forall>w. unlock w =
                (if lockfile \<in> fs w
                 then (Inr (), w\<lparr>fs := fs w - {lockfile},
                                trace := trace w @ [Remove lockfile]\<rparr>)
                 else (Inl FileNotFoundError, w)))"
  using assms by (simp add: lock_or_exit_def os_remove_def)

theorem release_raises_when_marker_gone_witness:
  "''/run/lock'' \<notin> fs test_world
   \<and> (\<exists>unlock st1. lock_or_exit ''/run/lock'' test_world = (Inr unlock, st1)
        \<and> unlock \<lparr>fs = {''/run/lock''}, trace = []\<rparr>
            = (Inr (), \<lparr>fs = {}, trace = [Remove ''/run/lock'']\<rparr>)
        \<and> unlock test_world = (Inl FileNotFoundError, test_world))"
proof -
  have h: "''/run/lock'' \<notin> fs test_world"
    by (simp add: test_world_def)
  show ?thesis
    using h release_raises_when_marker_gone [OF h] by (auto simp: test_world_def)
qed

text \<open>
  The claim as the specification states it fails: after the lock is taken on the default
  path, the first release succeeds and a second release, the marker being gone, raises.
\<close>

theorem release_twice_counterexample:
  "fst (projr (fst (lock_or_exit ''/var/run/zfs-killsnaps.lock'' test_world))
         (snd (lock_or_exit ''/var/run/zfs-killsnaps.lock'' test_world))) = Inr ()
   \<and> fst (projr (fst (lock_or_exit ''/var/run/zfs-killsnaps.lock'' test_world))
           (snd (projr (fst (lock_or_exit ''/var/run/zfs-killsnaps.lock'' test_world))
                  (snd (lock_or_exit ''/var/run/zfs-killsnaps.lock'' test_world)))))
       = Inl FileNotFoundError"
  by (simp add: lock_or_exit_def os_remove_def test_world_def)

subsection \<open>Traces\<close>

lemma startswith_Nil [simp]: "startswith s []"
  by (simp add: startswith_def)

lemma startswith_Cons_Cons [simp]: "startswith (c # s) (d # p) \<longleftrightarrow> c = d \<and> startswith s p"
  by (auto simp: startswith_def)

lemma startswith_Nil_Cons [simp]: "\<not> startswith [] (d # p)"
  by (simp add: startswith_def)

lemma extends_refl [simp]: "extends st st"
  by (simp add: extends_def run_events_def)

lemma extends_append [simp]: "extends st (st\<lparr>trace := trace st @ evs\<rparr>)"
  by (simp add: extends_def run_events_def)

lemma run_events_append [simp]: "run_events st (st\<lparr>trace := trace st @ evs\<rparr>) = evs"
  by (simp add: run_events_def)

lemma run_events_self [simp]: "run_events st st = []"
  by (simp add: run_events_def)

lemma extends_trace: "extends st st' \<Longrightarrow> trace st' = trace st @ run_events st st'"
proof -
  assume "extends st st'"
  then have "trace st' = trace (st\<lparr>trace := trace st @ run_events st st'\<rparr>)"
    unfolding extends_def by (rule arg_cong)
  then show ?thesis by simp
qed

lemma extends_fs: "extends st st' \<Longrightarrow> fs st' = fs st"
proof -
  assume "extends st st'"
  then have "fs st' = fs (st\<lparr>trace := trace st @ run_events st st'\<rparr>)"
    unfolding extends_def by (rule arg_cong)
  then show ?thesis by simp
qed

lemma extendsI: "fs st' = fs st \<Longrightarrow> trace st' = trace st @ evs \<Longrightarrow> extends st st'"
proof -
  assume f: "fs st' = fs st" and t: "trace st' = trace st @ evs"
  have r: "run_events st st' = evs"
    by (simp add: run_events_def t)
  have "st' = st\<lparr>trace := trace st @ evs\<rparr>"
    by (rule world.equality) (simp_all add: f t)
  then show ?thesis
    unfolding extends_def r by assumption
qed

lemma extends_trans:
  assumes "extends a b" and "extends b c"
  shows "extends a c \<and> run_events a c = run_events a b @ run_events b c"
proof -
  define eb where "eb = run_events a b"
  define ec where "ec = run_events b c"
  have tb: "trace b = trace a @ eb" and fb: "fs b = fs a"
    using assms(1) by (simp_all add: extends_trace extends_fs eb_def)
  have tc: "trace c = trace b @ ec" and fc: "fs c = fs b"
    using assms(2) by (simp_all add: extends_trace extends_fs ec_def)
  have t: "trace c = trace a @ (eb @ ec)"
    by (simp add: tb tc)
  have "extends a c"
    using fb fc t by (auto intro: extendsI)
  moreover have "run_events a c = eb @ ec"
    by (simp add: run_events_def t)
  ultimately show ?thesis
    by (simp add: eb_def ec_def)
qed



subsection \<open>The body of the loop\<close>

lemmas step_defs = cleanup_step_def get_snapshot_creation_def run_cmd_def logging_def
  is_older_than_def parse_creation_date_def Let_def

lemma step_cases [case_names fetch_failed empty unparsable young dry destroyed destroy_failed]:
  obtains
    (fetch_failed) out err code where
      "code \<noteq> 0" "\<not> eligible e age snap" "parses e snap"
      "cleanup_step e age r d snap n st =
         (Inr n, st\<lparr>trace := trace st @
            [Run (creation_cmd snap) (out, err, code),
             Log WARNING (''Could not get creation time for '' @ snap @ '': '' @ err)]\<rparr>)"
  | (empty) err where
      "\<not> eligible e age snap" "parses e snap"
      "cleanup_step e age r d snap n st =
         (Inr n, st\<lparr>trace := trace st @ [Run (creation_cmd snap) ([], err, 0)]\<rparr>)"
  | (unparsable) out err where
      "\<not> eligible e age snap" "\<not> parses e snap"
      "cleanup_step e age r d snap n st =
         (Inl ValueError, st\<lparr>trace := trace st @ [Run (creation_cmd snap) (out, err, 0)]\<rparr>)"
  | (young) out err where
      "\<not> eligible e age snap" "parses e snap"
      "cleanup_step e age r d snap n st =
         (Inr n, st\<lparr>trace := trace st @ [Run (creation_cmd snap) (out, err, 0)]\<rparr>)"
  | (dry) out err where
      "d" "eligible e age snap" "parses e snap"
      "cleanup_step e age r d snap n st =
         (Inr n, st\<lparr>trace := trace st @
            [Run (creation_cmd snap) (out, err, 0),
             Log INFO (''Found snapshot: '' @ snap @ '' (created '' @ out @ '')''),
             Log INFO (''[Dry-run] Would destroy '' @ snap)]\<rparr>)"
  | (destroyed) out err out2 err2 where
      "\<not> d" "eligible e age snap" "parses e snap"
      "cleanup_step e age r d snap n st =
         (Inr (n + 1), st\<lparr>trace := trace st @
            [Run (creation_cmd snap) (out, err, 0),
             Log INFO (''Found snapshot: '' @ snap @ '' (created '' @ out @ '')''),
             Run (destroy_cmd r snap) (out2, err2, 0),
             Log INFO (''Destroyed: '' @ snap)]\<rparr>)"
  | (destroy_failed) out err out2 err2 code2 where
      "\<not> d" "code2 \<noteq> 0" "eligible e age snap" "parses e snap"
      "cleanup_step e age r d snap n st =
         (Inr n, st\<lparr>trace := trace st @
            [Run (creation_cmd snap) (out, err, 0),
             Log INFO (''Found snapshot: '' @ snap @ '' (created '' @ out @ '')''),
             Run (destroy_cmd r snap) (out2, err2, code2),
             Log ERROR (''Failed to destroy '' @ snap @ '': '' @ err2)]\<rparr>)"
proof -
  obtain out err code where sh: "shell e (creation_cmd snap) = (out, err, code)"
    by (cases "shell e (creation_cmd snap)")
  show thesis
  proof (cases "code = 0")
    case False
    with sh show thesis
      by (intro fetch_failed [of code "strip out" "strip err"])
         (simp_all add: step_defs eligible_def parses_def)
  next
    case code: True
    show thesis
    proof (cases "strip out = []")
      case True
      with sh code show thesis
        by (intro empty [of "strip err"]) (simp_all add: step_defs eligible_def parses_def)
    next
      case nonempty: False
      show thesis
      proof (cases "strptime e (strip out) ''%a %b %d %H:%M %Y''")
        case None
        with sh code nonempty show thesis
          by (intro unparsable [of "strip out" "strip err"])
             (simp_all add: step_defs eligible_def parses_def)
      next
        case (Some t)
        show thesis
        proof (cases "age \<le> (now e - t) div us_per_day")
          case False
          with sh code nonempty Some show thesis
            by (intro young [of "strip out" "strip err"])
               (simp_all add: step_defs eligible_def parses_def)
        next
          case old: True
          show thesis
          proof (cases d)
            case True
            with sh code nonempty Some old show thesis
              by (intro dry [of "strip out" "strip err"])
                 (simp_all add: step_defs eligible_def parses_def)
          next
            case live: False
            obtain out2 err2 code2 where
              sh2: "shell e (destroy_cmd r snap) = (out2, err2, code2)"
              by (cases "shell e (destroy_cmd r snap)")
            show thesis
            proof (cases "code2 = 0")
              case True
              with sh code nonempty Some old live sh2 show thesis
                by (intro destroyed [of "strip out" "strip err" "strip out2" "strip err2"])
                   (simp_all add: step_defs eligible_def parses_def)
            next
              case False
              with sh code nonempty Some old live sh2 show thesis
                by (intro destroy_failed
                      [of code2 "strip out" "strip err" "strip out2" "strip err2"])
                   (simp_all add: step_defs eligible_def parses_def)
            qed
          qed
        qed
      qed
    qed
  qed
qed


lemmas event_defs = is_total_def is_destroy_def is_successful_destroy_def is_would_destroy_def
  creation_cmd_def destroy_cmd_def

lemma step_extends: "extends st (snd (cleanup_step e age r d snap n st))"
  by (cases rule: step_cases [where e = e and age = age and snap = snap and r = r and d = d
        and n = n and st = st]) simp_all

lemma step_no_total:
  "filter is_total (run_events st (snd (cleanup_step e age r d snap n st))) = []"
  by (cases rule: step_cases [where e = e and age = age and snap = snap and r = r and d = d
        and n = n and st = st]) (simp_all add: event_defs)

lemma step_dry_no_destroy:
  "filter is_destroy (run_events st (snd (cleanup_step e age r True snap n st))) = []"
  by (cases rule: step_cases [where e = e and age = age and snap = snap and r = r
        and d = True and n = n and st = st]) (simp_all add: event_defs)

lemma step_count:
  "fst (cleanup_step e age r d snap n st) = Inr m \<Longrightarrow>
     m = n + length (filter is_successful_destroy
                       (run_events st (snd (cleanup_step e age r d snap n st))))"
  by (cases rule: step_cases [where e = e and age = age and snap = snap and r = r and d = d
        and n = n and st = st]) (simp_all add: event_defs)

lemma step_returns:
  "parses e snap \<Longrightarrow> \<exists>m. fst (cleanup_step e age r d snap n st) = Inr m"
  by (cases rule: step_cases [where e = e and age = age and snap = snap and r = r and d = d
        and n = n and st = st]) simp_all

lemma step_would_destroy:
  "parses e snap \<Longrightarrow>
     filter is_would_destroy (run_events st (snd (cleanup_step e age r True snap n st)))
       = (if eligible e age snap then [Log INFO (''[Dry-run] Would destroy '' @ snap)] else [])"
  by (cases rule: step_cases [where e = e and age = age and snap = snap and r = r
        and d = True and n = n and st = st]) (simp_all add: event_defs)


subsection \<open>The loop over the snapshots\<close>

lemma run_events_trans:
  "extends a b \<Longrightarrow> extends b c \<Longrightarrow> run_events a c = run_events a b @ run_events b c"
  using extends_trans by blast

lemma extends_trans':
  "extends a b \<Longrightarrow> extends b c \<Longrightarrow> extends a c"
  using extends_trans by blast

lemma loop_Cons_Inl:
  "cleanup_step e age r d snap n st = (Inl x, st1) \<Longrightarrow>
     cleanup_loop e age r d (snap # snaps) n st = (Inl x, st1)"
  by simp

lemma loop_Cons_Inr:
  "cleanup_step e age r d snap n st = (Inr m, st1) \<Longrightarrow>
     cleanup_loop e age r d (snap # snaps) n st = cleanup_loop e age r d snaps m st1"
  by simp

text \<open>
  The two ways in which the creation time of a snapshot can be unusable: a failed fetch
  is logged as a warning and the loop goes on; a string that does not parse ends the loop
  with the exception.
\<close>

lemma fetch_failure_is_skipped:
  assumes "shell e (creation_cmd snap) = (out, err, code)" and "code \<noteq> 0"
  shows "cleanup_loop e age r d (snap # snaps) n st
           = cleanup_loop e age r d snaps n
               (st\<lparr>trace := trace st @
                  [Run (creation_cmd snap) (strip out, strip err, code),
                   Log WARNING (''Could not get creation time for '' @ snap @ '': ''
                                  @ strip err)]\<rparr>)"
  using assms by (simp add: step_defs)

lemma unparsable_creation_ends_loop:
  assumes "shell e (creation_cmd snap) = (out, err, 0)" and "strip out \<noteq> []"
    and "strptime e (strip out) ''%a %b %d %H:%M %Y'' = None"
  shows "cleanup_loop e age r d (snap # snaps) n st
           = (Inl ValueError,
              st\<lparr>trace := trace st @ [Run (creation_cmd snap) (strip out, strip err, 0)]\<rparr>)"
  using assms by (simp add: step_defs)

lemma loop_extends: "extends st (snd (cleanup_loop e age r d snaps n st))"
proof (induction snaps arbitrary: n st)
  case Nil
  show ?case by simp
next
  case (Cons snap snaps)
  obtain r1 st1 where s: "cleanup_step e age r d snap n st = (r1, st1)"
    by (cases "cleanup_step e age r d snap n st")
  have e1: "extends st st1"
    using step_extends [of st e age r d snap n] s by simp
  show ?case
  proof (cases r1)
    case (Inl x)
    then show ?thesis using s e1 by (simp add: loop_Cons_Inl)
  next
    case (Inr m)
    have "extends st1 (snd (cleanup_loop e age r d snaps m st1))"
      by (rule Cons.IH)
    with e1 have "extends st (snd (cleanup_loop e age r d snaps m st1))"
      by (rule extends_trans')
    then show ?thesis using s Inr by (simp add: loop_Cons_Inr)
  qed
qed

lemma loop_events_Cons:
  assumes "cleanup_step e age r d snap n st = (Inr m, st1)"
  shows "run_events st (snd (cleanup_loop e age r d (snap # snaps) n st))
           = run_events st st1 @ run_events st1 (snd (cleanup_loop e age r d snaps m st1))"
proof -
  have "extends st st1"
    using step_extends [of st e age r d snap n] assms by simp
  moreover have "extends st1 (snd (cleanup_loop e age r d snaps m st1))"
    by (rule loop_extends)
  ultimately have "run_events st (snd (cleanup_loop e age r d snaps m st1))
      = run_events st st1 @ run_events st1 (snd (cleanup_loop e age r d snaps m st1))"
    by (rule run_events_trans)
  then show ?thesis
    by (simp only: loop_Cons_Inr [OF assms])
qed


lemma loop_no_total:
  "filter is_total (run_events st (snd (cleanup_loop e age r d snaps n st))) = []"
proof (induction snaps arbitrary: n st)
  case Nil
  show ?case by simp
next
  case (Cons snap snaps)
  obtain r1 st1 where s: "cleanup_step e age r d snap n st = (r1, st1)"
    by (cases "cleanup_step e age r d snap n st")
  have p: "filter is_total (run_events st st1) = []"
    using step_no_total [of st e age r d snap n] s by simp
  show ?case
  proof (cases r1)
    case (Inl x)
    then show ?thesis using s p by (simp add: loop_Cons_Inl)
  next
    case (Inr m)
    have "filter is_total (run_events st1 (snd (cleanup_loop e age r d snaps m st1))) = []"
      by (rule Cons.IH)
    moreover have "cleanup_step e age r d snap n st = (Inr m, st1)"
      using s Inr by simp
    ultimately show ?thesis
      using p by (simp only: loop_events_Cons filter_append append_Nil)
  qed
qed

lemma loop_dry_no_destroy:
  "filter is_destroy (run_events st (snd (cleanup_loop e age r True snaps n st))) = []"
proof (induction snaps arbitrary: n st)
  case Nil
  show ?case by simp
next
  case (Cons snap snaps)
  obtain r1 st1 where s: "cleanup_step e age r True snap n st = (r1, st1)"
    by (cases "cleanup_step e age r True snap n st")
  have p: "filter is_destroy (run_events st st1) = []"
    using step_dry_no_destroy [of st e age r snap n] s by simp
  show ?case
  proof (cases r1)
    case (Inl x)
    then show ?thesis using s p by (simp add: loop_Cons_Inl)
  next
    case (Inr m)
    have "filter is_destroy (run_events st1 (snd (cleanup_loop e age r True snaps m st1))) = []"
      by (rule Cons.IH)
    moreover have "cleanup_step e age r True snap n st = (Inr m, st1)"
      using s Inr by simp
    ultimately show ?thesis
      using p by (simp only: loop_events_Cons filter_append append_Nil)
  qed
qed

lemma loop_count:
  "fst (cleanup_loop e age r d snaps n st) = Inr k \<Longrightarrow>
     k = n + length (filter is_successful_destroy
                       (run_events st (snd (cleanup_loop e age r d snaps n st))))"
proof (induction snaps arbitrary: n st)
  case Nil
  then show ?case by simp
next
  case (Cons snap snaps)
  obtain r1 st1 where s: "cleanup_step e age r d snap n st = (r1, st1)"
    by (cases "cleanup_step e age r d snap n st")
  show ?case
  proof (cases r1)
    case (Inl x)
    then show ?thesis using s Cons.prems by (simp add: loop_Cons_Inl)
  next
    case (Inr m)
    have m: "m = n + length (filter is_successful_destroy (run_events st st1))"
      using step_count [of e age r d snap n st m] s Inr by simp
    have "fst (cleanup_loop e age r d snaps m st1) = Inr k"
      using Cons.prems s Inr by (simp add: loop_Cons_Inr)
    then have "k = m + length (filter is_successful_destroy
                                 (run_events st1 (snd (cleanup_loop e age r d snaps m st1))))"
      by (rule Cons.IH)
    moreover have "cleanup_step e age r d snap n st = (Inr m, st1)"
      using s Inr by simp
    ultimately show ?thesis
      using m by (simp only: loop_events_Cons filter_append length_append add.assoc)
  qed
qed

lemma loop_returns:
  "\<forall>snap \<in> set snaps. parses e snap \<Longrightarrow>
     \<exists>k. fst (cleanup_loop e age r d snaps n st) = Inr k"
proof (induction snaps arbitrary: n st)
  case Nil
  show ?case by simp
next
  case (Cons snap snaps)
  obtain m where "fst (cleanup_step e age r d snap n st) = Inr m"
    using step_returns [of e snap age r d n st] Cons.prems by auto
  then have s: "cleanup_step e age r d snap n st
                  = (Inr m, snd (cleanup_step e age r d snap n st))"
    by (simp add: prod_eq_iff)
  have "\<exists>k. fst (cleanup_loop e age r d snaps m (snd (cleanup_step e age r d snap n st)))
               = Inr k"
    using Cons.prems by (intro Cons.IH) simp
  then show ?case
    by (simp only: loop_Cons_Inr [OF s])
qed

lemma loop_would_destroy:
  "\<forall>snap \<in> set snaps. parses e snap \<Longrightarrow>
     filter is_would_destroy (run_events st (snd (cleanup_loop e age r True snaps n st)))
       = map (\<lambda>snap. Log INFO (''[Dry-run] Would destroy '' @ snap))
           (filter (eligible e age) snaps)"
proof (induction snaps arbitrary: n st)
  case Nil
  show ?case by simp
next
  case (Cons snap snaps)
  define st1 where "st1 = snd (cleanup_step e age r True snap n st)"
  obtain m where "fst (cleanup_step e age r True snap n st) = Inr m"
    using step_returns [of e snap age r True n st] Cons.prems by auto
  then have s: "cleanup_step e age r True snap n st = (Inr m, st1)"
    by (simp add: prod_eq_iff st1_def)
  have p: "filter is_would_destroy (run_events st st1)
             = (if eligible e age snap
                then [Log INFO (''[Dry-run] Would destroy '' @ snap)] else [])"
    using step_would_destroy [of e snap st age r n] Cons.prems by (simp add: st1_def)
  have "filter is_would_destroy (run_events st1 (snd (cleanup_loop e age r True snaps m st1)))
          = map (\<lambda>snap. Log INFO (''[Dry-run] Would destroy '' @ snap))
              (filter (eligible e age) snaps)"
    using Cons.prems by (intro Cons.IH) simp
  then show ?case
    unfolding loop_events_Cons [OF s] filter_append using p by simp
qed


subsection \<open>Enumerator and destroyer\<close>

lemma load_snapshots_ok:
  "shell e list_cmd = (out, err, 0) \<Longrightarrow>
     load_snapshots e pattern pool st
       = (Inr (filter_lines pattern pool (splitlines (strip out)) []),
          st\<lparr>trace := trace st @ [Run list_cmd (strip out, strip err, 0)]\<rparr>)"
  by (simp add: load_snapshots_def run_cmd_def)

lemma load_snapshots_failed:
  "shell e list_cmd = (out, err, code) \<Longrightarrow> code \<noteq> 0 \<Longrightarrow>
     load_snapshots e pattern pool st
       = (Inl (SystemExit 1),
          st\<lparr>trace := trace st @
             [Run list_cmd (strip out, strip err, code),
              Log ERROR (''Failed to list snapshots: '' @ strip err)]\<rparr>)"
  by (simp add: load_snapshots_def run_cmd_def logging_def)

lemma filter_lines_filter:
  "filter_lines pattern pool lines acc =
     acc @ filter (\<lambda>x. sublist pattern x \<and>
                (case pool of None \<Rightarrow> True
                 | Some p \<Rightarrow> p = [] \<or> prefix (p @ ''@'') x \<or> prefix (p @ ''/'') x))
            (map (takeWhile (\<lambda>c. c \<noteq> TAB)) lines)"
  by (induction lines arbitrary: acc)
     (simp_all add: Let_def hd_split py_in_sublist startswith_prefix split: option.splits)

lemma cleanup_snapshots_failed:
  "shell e list_cmd = (out, err, code) \<Longrightarrow> code \<noteq> 0 \<Longrightarrow>
     cleanup_snapshots e pattern age r d pool config st
       = (Inl (SystemExit 1),
          st\<lparr>trace := trace st @
             [Run list_cmd (strip out, strip err, code),
              Log ERROR (''Failed to list snapshots: '' @ strip err)]\<rparr>)"
  by (simp add: cleanup_snapshots_def load_snapshots_failed)

lemma cleanup_snapshots_empty:
  "shell e list_cmd = (out, err, 0) \<Longrightarrow>
   filter_lines pattern pool (splitlines (strip out)) [] = [] \<Longrightarrow>
     cleanup_snapshots e pattern age r d pool config st
       = (Inr (),
          st\<lparr>trace := trace st @
             [Run list_cmd (strip out, strip err, 0),
              Log INFO (''No snapshots matching '' @ [CHR 0x27] @ pattern @ [CHR 0x27]
                          @ '' found.'')]\<rparr>)"
  by (simp add: cleanup_snapshots_def load_snapshots_ok logging_def)

lemma cleanup_snapshots_loop:
  assumes "shell e list_cmd = (out, err, 0)"
    and "filter_lines pattern pool (splitlines (strip out)) [] = snapshots"
    and "snapshots \<noteq> []"
  shows "\<exists>res evs.
           cleanup_loop e age r d snapshots 0
               (st\<lparr>trace := trace st @ [Run list_cmd (strip out, strip err, 0)]\<rparr>)
             = (res, st\<lparr>trace := trace st @ Run list_cmd (strip out, strip err, 0) # evs\<rparr>)
         \<and> filter is_total evs = []
         \<and> (d \<longrightarrow> filter is_destroy evs = [])
         \<and> (d \<and> (\<forall>snap \<in> set snapshots. parses e snap) \<longrightarrow>
                filter is_would_destroy evs
                  = map (\<lambda>snap. Log INFO (''[Dry-run] Would destroy '' @ snap))
                      (filter (eligible e age) snapshots))
         \<and> ((\<forall>snap \<in> set snapshots. parses e snap) \<longrightarrow>
                res = Inr (length (filter is_successful_destroy evs)))
         \<and> cleanup_snapshots e pattern age r d pool config st
             = (case res of
                  Inl x \<Rightarrow>
                    (Inl x, st\<lparr>trace := trace st @ Run list_cmd (strip out, strip err, 0) # evs\<rparr>)
                | Inr k \<Rightarrow>
                    (Inr (), st\<lparr>trace := trace st @ Run list_cmd (strip out, strip err, 0) # evs
                                  @ [Log INFO (''Total snapshots destroyed: '' @ str_nat k)]\<rparr>))"
proof -
  define st1 where "st1 = st\<lparr>trace := trace st @ [Run list_cmd (strip out, strip err, 0)]\<rparr>"
  define L where "L = cleanup_loop e age r d snapshots 0 st1"
  define evs where "evs = run_events st1 (snd L)"
  have ext: "extends st1 (snd L)"
    unfolding L_def by (rule loop_extends)
  then have st2: "snd L = st1\<lparr>trace := trace st1 @ evs\<rparr>"
    by (simp add: extends_def evs_def)
  then have st2': "snd L = st\<lparr>trace := trace st @ Run list_cmd (strip out, strip err, 0) # evs\<rparr>"
    by (simp add: st1_def)
  have L: "L = (fst L, st\<lparr>trace := trace st @ Run list_cmd (strip out, strip err, 0) # evs\<rparr>)"
    using st2' by (simp add: prod_eq_iff)
  have t: "filter is_total evs = []"
    unfolding evs_def L_def by (rule loop_no_total)
  have dd: "d \<longrightarrow> filter is_destroy evs = []"
    unfolding evs_def L_def by (auto simp: loop_dry_no_destroy)
  have w: "d \<and> (\<forall>snap \<in> set snapshots. parses e snap) \<longrightarrow>
             filter is_would_destroy evs
               = map (\<lambda>snap. Log INFO (''[Dry-run] Would destroy '' @ snap))
                   (filter (eligible e age) snapshots)"
    unfolding evs_def L_def by (auto simp: loop_would_destroy)
  have c: "(\<forall>snap \<in> set snapshots. parses e snap) \<longrightarrow>
             fst L = Inr (length (filter is_successful_destroy evs))"
  proof
    assume a: "\<forall>snap \<in> set snapshots. parses e snap"
    then obtain k where k: "fst L = Inr k"
      unfolding L_def using loop_returns by blast
    then have "k = 0 + length (filter is_successful_destroy evs)"
      unfolding evs_def L_def by (rule loop_count)
    with k show "fst L = Inr (length (filter is_successful_destroy evs))"
      by simp
  qed
  have cs: "cleanup_snapshots e pattern age r d pool config st
             = (case fst L of
                  Inl x \<Rightarrow>
                    (Inl x, st\<lparr>trace := trace st @ Run list_cmd (strip out, strip err, 0) # evs\<rparr>)
                | Inr k \<Rightarrow>
                    (Inr (), st\<lparr>trace := trace st @ Run list_cmd (strip out, strip err, 0) # evs
                                  @ [Log INFO (''Total snapshots destroyed: '' @ str_nat k)]\<rparr>))"
  proof -
    have "cleanup_snapshots e pattern age r d pool config st
            = (case L of (Inl x, st2) \<Rightarrow> (Inl x, st2)
               | (Inr k, st2) \<Rightarrow>
                   (Inr (), logging INFO (''Total snapshots destroyed: '' @ str_nat k) st2))"
      using assms
      by (simp add: cleanup_snapshots_def load_snapshots_ok [OF assms(1)] L_def st1_def)
    also have "\<dots> = (case fst L of
                  Inl x \<Rightarrow>
                    (Inl x, st\<lparr>trace := trace st @ Run list_cmd (strip out, strip err, 0) # evs\<rparr>)
                | Inr k \<Rightarrow>
                    (Inr (), st\<lparr>trace := trace st @ Run list_cmd (strip out, strip err, 0) # evs
                                  @ [Log INFO (''Total snapshots destroyed: '' @ str_nat k)]\<rparr>))"
      by (subst L) (simp add: logging_def split: sum.splits)
    finally show ?thesis .
  qed
  show ?thesis
    using L t dd w c cs unfolding L_def st1_def by blast
qed


lemma digit_0: "digit 0 = CHR ''0''"
  by code_simp

lemma str_nat_0: "str_nat 0 = ''0''"
  by (simp add: digit_0)

lemma successful_destroy_is_destroy: "is_successful_destroy ev \<Longrightarrow> is_destroy ev"
  by (cases ev) (simp_all add: is_successful_destroy_def is_destroy_def)

lemma no_destroy_no_successful:
  "filter is_destroy evs = [] \<Longrightarrow> filter is_successful_destroy evs = []"
  by (auto simp: filter_empty_conv dest: successful_destroy_is_destroy)

lemma cleanup_snapshots_dry_no_destroy:
  "filter is_destroy
     (run_events st (snd (cleanup_snapshots e pattern age r True pool config st))) = []"
proof -
  obtain out err code where sh: "shell e list_cmd = (out, err, code)"
    by (cases "shell e list_cmd")
  show ?thesis
  proof (cases "code = 0")
    case False
    then show ?thesis
      by (simp add: cleanup_snapshots_failed [OF sh] event_defs list_cmd_def)
  next
    case True
    with sh have sh0: "shell e list_cmd = (out, err, 0)"
      by simp
    show ?thesis
    proof (cases "filter_lines pattern pool (splitlines (strip out)) [] = []")
      case True
      then show ?thesis
        by (simp add: cleanup_snapshots_empty [OF sh0] event_defs list_cmd_def)
    next
      case False
      from cleanup_snapshots_loop [OF sh0 refl False, where age = age and r = r and d = True and st = st and config = config]
      obtain res evs where
        d: "filter is_destroy evs = []" and
        cs: "cleanup_snapshots e pattern age r True pool config st
             = (case res of
                  Inl x \<Rightarrow>
                    (Inl x, st\<lparr>trace := trace st @ Run list_cmd (strip out, strip err, 0) # evs\<rparr>)
                | Inr k \<Rightarrow>
                    (Inr (), st\<lparr>trace := trace st @ Run list_cmd (strip out, strip err, 0) # evs
                                  @ [Log INFO (''Total snapshots destroyed: '' @ str_nat k)]\<rparr>))"
        by blast
      show ?thesis
        unfolding cs using d by (cases res) (simp_all add: event_defs list_cmd_def)
    qed
  qed
qed

text \<open>
  Claim C9, as the code has it. When the listing succeeds, at least one snapshot matches
  and every fetched creation time parses, the run of the destroyer returns normally and
  the last thing it does is to log the total, which is the number of destroy commands
  that returned status 0 in this run; it is the only total that the run logs. When no
  snapshot matches, the run returns normally and all it does after the listing is to log
  the message that no snapshot matched: it logs no total at all.
\<close>

theorem total_counts_successful_destroys:
  assumes "shell e list_cmd = (out, err, 0)"
    and "filter_lines pattern pool (splitlines (strip out)) [] = snapshots"
    and "\<forall>snap \<in> set snapshots. parses e snap"
  shows "\<exists>st'. cleanup_snapshots e pattern age r d pool config st = (Inr (), st')
       \<and> extends st st'
       \<and> (snapshots \<noteq> [] \<longrightarrow>
            last (run_events st st')
              = Log INFO (''Total snapshots destroyed: ''
                  @ str_nat (length (filter is_successful_destroy (run_events st st'))))
          \<and> length (filter is_total (run_events st st')) = 1)
       \<and> (snapshots = [] \<longrightarrow>
            run_events st st'
              = [Run list_cmd (strip out, strip err, 0),
                 Log INFO (''No snapshots matching '' @ [CHR 0x27] @ pattern @ [CHR 0x27]
                             @ '' found.'')]
          \<and> filter is_total (run_events st st') = [])"
proof (cases "snapshots = []")
  case True
  then show ?thesis
    using assms(2) by (simp add: cleanup_snapshots_empty [OF assms(1)] event_defs list_cmd_def)
next
  case False
  from cleanup_snapshots_loop [OF assms(1,2) False, where age = age and r = r and d = d and st = st and config = config]
  obtain res evs where
    t: "filter is_total evs = []" and
    c: "res = Inr (length (filter is_successful_destroy evs))" and
    cs: "cleanup_snapshots e pattern age r d pool config st
         = (case res of
              Inl x \<Rightarrow>
                (Inl x, st\<lparr>trace := trace st @ Run list_cmd (strip out, strip err, 0) # evs\<rparr>)
            | Inr k \<Rightarrow>
                (Inr (), st\<lparr>trace := trace st @ Run list_cmd (strip out, strip err, 0) # evs
                              @ [Log INFO (''Total snapshots destroyed: '' @ str_nat k)]\<rparr>))"
    using assms(3) by blast
  show ?thesis
    unfolding cs c using False t by (simp add: event_defs list_cmd_def)
qed

theorem total_counts_successful_destroys_witness:
  "shell (test_env shell_three) list_cmd = (listing_three, [], 0)
   \<and> filter_lines ''weekly'' None (splitlines (strip listing_three)) []
       = [''tank@weekly-1'', ''tank@weekly-2'', ''tank@weekly-3'']
   \<and> parses (test_env shell_three) ''tank@weekly-1''
   \<and> parses (test_env shell_three) ''tank@weekly-2''
   \<and> parses (test_env shell_three) ''tank@weekly-3''
   \<and> (\<exists>st'. cleanup_snapshots (test_env shell_three) ''weekly'' 30 False False None
                DEFAULT_CONFIG test_world = (Inr (), st')
          \<and> last (run_events test_world st')
              = Log INFO (''Total snapshots destroyed: ''
                  @ str_nat (length (filter is_successful_destroy (run_events test_world st')))))
   \<and> last (trace (snd (cleanup_snapshots (test_env shell_three) ''weekly'' 30 False False None
                         DEFAULT_CONFIG test_world)))
       = Log INFO ''Total snapshots destroyed: 2''
   \<and> shell (test_env shell_daily) list_cmd = (listing_daily, [], 0)
   \<and> filter_lines ''weekly'' None (splitlines (strip listing_daily)) [] = []
   \<and> (\<exists>st'. cleanup_snapshots (test_env shell_daily) ''weekly'' 30 False False None
                DEFAULT_CONFIG test_world = (Inr (), st')
          \<and> run_events test_world st'
              = [Run list_cmd (strip listing_daily, strip [], 0),
                 Log INFO (''No snapshots matching '' @ [CHR 0x27] @ ''weekly'' @ [CHR 0x27]
                             @ '' found.'')])"
proof -
  have g1: "shell (test_env shell_daily) list_cmd = (listing_daily, [], 0)"
    by (simp add: test_env_def shell_daily_def)
  have g2: "filter_lines ''weekly'' None (splitlines (strip listing_daily)) [] = []"
    by code_simp
  have g3: "\<forall>snap \<in> set []. parses (test_env shell_daily) snap"
    by simp
  from total_counts_successful_destroys
         [OF g1 g2 g3, where age = 30 and r = False and d = False and config = DEFAULT_CONFIG
            and st = test_world]
  obtain st0 where
    a0: "cleanup_snapshots (test_env shell_daily) ''weekly'' 30 False False None
          DEFAULT_CONFIG test_world = (Inr (), st0)" and
    b0: "run_events test_world st0
          = [Run list_cmd (strip listing_daily, strip [], 0),
             Log INFO (''No snapshots matching '' @ [CHR 0x27] @ ''weekly'' @ [CHR 0x27]
                         @ '' found.'')]"
    by blast
  have h1: "shell (test_env shell_three) list_cmd = (listing_three, [], 0)"
    by (simp add: test_env_def shell_three_def)
  have h2: "filter_lines ''weekly'' None (splitlines (strip listing_three)) []
              = [''tank@weekly-1'', ''tank@weekly-2'', ''tank@weekly-3'']"
    by code_simp
  have p1: "parses (test_env shell_three) ''tank@weekly-1''"
    by code_simp
  have p2: "parses (test_env shell_three) ''tank@weekly-2''"
    by code_simp
  have p3: "parses (test_env shell_three) ''tank@weekly-3''"
    by code_simp
  have h3: "\<forall>snap \<in> set [''tank@weekly-1'', ''tank@weekly-2'', ''tank@weekly-3''].
              parses (test_env shell_three) snap"
    using p1 p2 p3 by simp
  have ne: "[''tank@weekly-1'', ''tank@weekly-2'', ''tank@weekly-3''] \<noteq> []"
    by simp
  from total_counts_successful_destroys
         [OF h1 h2 h3, where age = 30 and r = False and d = False and config = DEFAULT_CONFIG
            and st = test_world]
  obtain st' where
    a: "cleanup_snapshots (test_env shell_three) ''weekly'' 30 False False None
          DEFAULT_CONFIG test_world = (Inr (), st')" and
    b: "last (run_events test_world st')
          = Log INFO (''Total snapshots destroyed: ''
              @ str_nat (length (filter is_successful_destroy (run_events test_world st'))))"
    using ne by blast
  have c: "last (trace (snd (cleanup_snapshots (test_env shell_three) ''weekly'' 30 False False
                               None DEFAULT_CONFIG test_world)))
             = Log INFO ''Total snapshots destroyed: 2''"
    by code_simp
  show ?thesis
    using h1 h2 p1 p2 p3 a b c g1 g2 a0 b0 by blast
qed

text \<open>
  The claim as the specification states it fails for a run where no snapshot matches:
  the script logs that nothing matched, returns, and logs no total. With only a daily
  snapshot and the pattern \<^verbatim>\<open>weekly\<close> the whole run is the following, with exit status 0.
\<close>

theorem no_match_logs_no_total_counterexample:
  "fst (main (test_env shell_daily) (test_args False) test_world) = 0
   \<and> trace (snd (main (test_env shell_daily) (test_args False) test_world))
       = [Create ''/var/run/zfs-killsnaps.lock'',
          Run list_cmd (''tank@daily-1'' @ [TAB] @ ''8K'', [], 0),
          Log INFO (''No snapshots matching '' @ [CHR 0x27] @ ''weekly'' @ [CHR 0x27]
                      @ '' found.''),
          Remove ''/var/run/zfs-killsnaps.lock'',
          Notifier ''/var/log/zfs-killsnaps.log'',
          Mail ''admin@example.com'']"
  by code_simp

text \<open>
  Claim C8, as the code has it. A dry run never issues a destroy command, whatever
  happens. When the listing succeeds and every fetched creation time parses, the dry run
  returns normally and logs one entry \<^verbatim>\<open>[Dry-run] Would destroy\<close> for each snapshot
  that passes the guard of the loop, in the order of the listing; when at least one
  snapshot matches, its last log entry is the total 0, and when none matches all it does
  after the listing is to log the message that no snapshot matched: it reports no count.
\<close>

theorem dry_run_issues_no_destroy:
  "filter is_destroy
     (run_events st (snd (cleanup_snapshots e pattern age r True pool config st))) = []
   \<and> (shell e list_cmd = (out, err, 0)
        \<and> filter_lines pattern pool (splitlines (strip out)) [] = snapshots
        \<and> (\<forall>snap \<in> set snapshots. parses e snap)
      \<longrightarrow> (\<exists>st'. cleanup_snapshots e pattern age r True pool config st = (Inr (), st')
             \<and> filter is_would_destroy (run_events st st')
                 = map (\<lambda>snap. Log INFO (''[Dry-run] Would destroy '' @ snap))
                     (filter (eligible e age) snapshots)
             \<and> (snapshots \<noteq> [] \<longrightarrow>
                  last (run_events st st') = Log INFO ''Total snapshots destroyed: 0'')
             \<and> (snapshots = [] \<longrightarrow>
                  run_events st st'
                    = [Run list_cmd (strip out, strip err, 0),
                       Log INFO (''No snapshots matching '' @ [CHR 0x27] @ pattern
                                   @ [CHR 0x27] @ '' found.'')]
                \<and> filter is_total (run_events st st') = [])))"
proof (intro conjI impI)
  show "filter is_destroy
     (run_events st (snd (cleanup_snapshots e pattern age r True pool config st))) = []"
    by (rule cleanup_snapshots_dry_no_destroy)
next
  assume a: "shell e list_cmd = (out, err, 0)
        \<and> filter_lines pattern pool (splitlines (strip out)) [] = snapshots
        \<and> (\<forall>snap \<in> set snapshots. parses e snap)"
  then have sh: "shell e list_cmd = (out, err, 0)"
    and fl: "filter_lines pattern pool (splitlines (strip out)) [] = snapshots"
    and pa: "\<forall>snap \<in> set snapshots. parses e snap"
    by simp_all
  show "\<exists>st'. cleanup_snapshots e pattern age r True pool config st = (Inr (), st')
             \<and> filter is_would_destroy (run_events st st')
                 = map (\<lambda>snap. Log INFO (''[Dry-run] Would destroy '' @ snap))
                     (filter (eligible e age) snapshots)
             \<and> (snapshots \<noteq> [] \<longrightarrow>
                  last (run_events st st') = Log INFO ''Total snapshots destroyed: 0'')
             \<and> (snapshots = [] \<longrightarrow>
                  run_events st st'
                    = [Run list_cmd (strip out, strip err, 0),
                       Log INFO (''No snapshots matching '' @ [CHR 0x27] @ pattern
                                   @ [CHR 0x27] @ '' found.'')]
                \<and> filter is_total (run_events st st') = [])"
  proof (cases "snapshots = []")
    case True
    then show ?thesis
      using fl by (simp add: cleanup_snapshots_empty [OF sh] event_defs list_cmd_def)
  next
    case False
    from cleanup_snapshots_loop [OF sh fl False, where age = age and r = r and d = True and st = st and config = config]
    obtain res evs where
      d: "filter is_destroy evs = []" and
      w: "filter is_would_destroy evs
            = map (\<lambda>snap. Log INFO (''[Dry-run] Would destroy '' @ snap))
                (filter (eligible e age) snapshots)" and
      c: "res = Inr (length (filter is_successful_destroy evs))" and
      cs: "cleanup_snapshots e pattern age r True pool config st
           = (case res of
                Inl x \<Rightarrow>
                  (Inl x, st\<lparr>trace := trace st @ Run list_cmd (strip out, strip err, 0) # evs\<rparr>)
              | Inr k \<Rightarrow>
                  (Inr (), st\<lparr>trace := trace st @ Run list_cmd (strip out, strip err, 0) # evs
                                @ [Log INFO (''Total snapshots destroyed: '' @ str_nat k)]\<rparr>))"
      using pa by blast
    have z: "filter is_successful_destroy evs = []"
      using d by (rule no_destroy_no_successful)
    show ?thesis
      unfolding cs c z using False w by (simp add: digit_0 event_defs list_cmd_def)
  qed
qed


theorem dry_run_issues_no_destroy_witness:
  "shell (test_env shell_three) list_cmd = (listing_three, [], 0)
   \<and> filter_lines ''weekly'' None (splitlines (strip listing_three)) []
       = [''tank@weekly-1'', ''tank@weekly-2'', ''tank@weekly-3'']
   \<and> parses (test_env shell_three) ''tank@weekly-1''
   \<and> parses (test_env shell_three) ''tank@weekly-2''
   \<and> parses (test_env shell_three) ''tank@weekly-3''
   \<and> filter (eligible (test_env shell_three) 30)
         [''tank@weekly-1'', ''tank@weekly-2'', ''tank@weekly-3'']
       = [''tank@weekly-2'', ''tank@weekly-3'']
   \<and> (\<exists>st'. cleanup_snapshots (test_env shell_three) ''weekly'' 30 False True None
                DEFAULT_CONFIG test_world = (Inr (), st')
          \<and> filter is_destroy (run_events test_world st') = []
          \<and> filter is_would_destroy (run_events test_world st')
              = [Log INFO ''[Dry-run] Would destroy tank@weekly-2'',
                 Log INFO ''[Dry-run] Would destroy tank@weekly-3'']
          \<and> last (run_events test_world st') = Log INFO ''Total snapshots destroyed: 0'')
   \<and> shell (test_env shell_daily) list_cmd = (listing_daily, [], 0)
   \<and> filter_lines ''weekly'' None (splitlines (strip listing_daily)) [] = []
   \<and> (\<exists>st'. cleanup_snapshots (test_env shell_daily) ''weekly'' 30 False True None
                DEFAULT_CONFIG test_world = (Inr (), st')
          \<and> run_events test_world st'
              = [Run list_cmd (strip listing_daily, strip [], 0),
                 Log INFO (''No snapshots matching '' @ [CHR 0x27] @ ''weekly'' @ [CHR 0x27]
                             @ '' found.'')])"
proof -
  have g1: "shell (test_env shell_daily) list_cmd = (listing_daily, [], 0)"
    by (simp add: test_env_def shell_daily_def)
  have g2: "filter_lines ''weekly'' None (splitlines (strip listing_daily)) [] = []"
    by code_simp
  have g3: "\<forall>snap \<in> set []. parses (test_env shell_daily) snap"
    by simp
  note t0 = dry_run_issues_no_destroy
         [where st = test_world and e = "test_env shell_daily" and pattern = "''weekly''"
            and age = 30 and r = False and pool = None and config = DEFAULT_CONFIG
            and out = listing_daily and err = "[]" and snapshots = "[]"]
  from t0 g1 g2 g3 obtain st0 where
    a0: "cleanup_snapshots (test_env shell_daily) ''weekly'' 30 False True None
          DEFAULT_CONFIG test_world = (Inr (), st0)" and
    b0: "run_events test_world st0
          = [Run list_cmd (strip listing_daily, strip [], 0),
             Log INFO (''No snapshots matching '' @ [CHR 0x27] @ ''weekly'' @ [CHR 0x27]
                         @ '' found.'')]"
    by blast
  have h1: "shell (test_env shell_three) list_cmd = (listing_three, [], 0)"
    by (simp add: test_env_def shell_three_def)
  have h2: "filter_lines ''weekly'' None (splitlines (strip listing_three)) []
              = [''tank@weekly-1'', ''tank@weekly-2'', ''tank@weekly-3'']"
    by code_simp
  have p1: "parses (test_env shell_three) ''tank@weekly-1''"
    by code_simp
  have p2: "parses (test_env shell_three) ''tank@weekly-2''"
    by code_simp
  have p3: "parses (test_env shell_three) ''tank@weekly-3''"
    by code_simp
  have h3: "\<forall>snap \<in> set [''tank@weekly-1'', ''tank@weekly-2'', ''tank@weekly-3''].
              parses (test_env shell_three) snap"
    using p1 p2 p3 by simp
  have el: "filter (eligible (test_env shell_three) 30)
              [''tank@weekly-1'', ''tank@weekly-2'', ''tank@weekly-3'']
            = [''tank@weekly-2'', ''tank@weekly-3'']"
    by code_simp
  have ne: "[''tank@weekly-1'', ''tank@weekly-2'', ''tank@weekly-3''] \<noteq> []"
    by simp
  note t = dry_run_issues_no_destroy
         [where st = test_world and e = "test_env shell_three" and pattern = "''weekly''"
            and age = 30 and r = False and pool = None and config = DEFAULT_CONFIG
            and out = listing_three and err = "[]"
            and snapshots = "[''tank@weekly-1'', ''tank@weekly-2'', ''tank@weekly-3'']"]
  from t have d: "filter is_destroy
     (run_events test_world (snd (cleanup_snapshots (test_env shell_three) ''weekly'' 30 False
         True None DEFAULT_CONFIG test_world))) = []"
    by (rule conjunct1)
  from t h1 h2 h3 ne obtain st' where
    a: "cleanup_snapshots (test_env shell_three) ''weekly'' 30 False True None
          DEFAULT_CONFIG test_world = (Inr (), st')" and
    w: "filter is_would_destroy (run_events test_world st')
          = map (\<lambda>snap. Log INFO (''[Dry-run] Would destroy '' @ snap))
              (filter (eligible (test_env shell_three) 30)
                 [''tank@weekly-1'', ''tank@weekly-2'', ''tank@weekly-3''])" and
    z: "last (run_events test_world st') = Log INFO ''Total snapshots destroyed: 0''"
    by blast
  have d': "filter is_destroy (run_events test_world st') = []"
    using d a by simp
  have w': "filter is_would_destroy (run_events test_world st')
              = [Log INFO ''[Dry-run] Would destroy tank@weekly-2'',
                 Log INFO ''[Dry-run] Would destroy tank@weekly-3'']"
    unfolding w el by simp
  show ?thesis
    using h1 h2 p1 p2 p3 el a d' w' z g1 g2 a0 b0 by blast
qed

text \<open>
  The claim as the specification states it fails for a dry run where no snapshot matches:
  no destroyed count is reported, since the script returns after logging that nothing
  matched.
\<close>

theorem dry_run_no_match_counterexample:
  "fst (main (test_env shell_daily) (test_args True) test_world) = 0
   \<and> trace (snd (main (test_env shell_daily) (test_args True) test_world))
       = [Create ''/var/run/zfs-killsnaps.lock'',
          Run list_cmd (''tank@daily-1'' @ [TAB] @ ''8K'', [], 0),
          Log INFO (''No snapshots matching '' @ [CHR 0x27] @ ''weekly'' @ [CHR 0x27]
                      @ '' found.''),
          Remove ''/var/run/zfs-killsnaps.lock'',
          Notifier ''/var/log/zfs-killsnaps.log'',
          Mail ''admin@example.com'']"
  by code_simp

text \<open>
  Claim C2, as the code has it. When the listing succeeds, the enumerator returns, in the
  order of the output lines, the first tab-separated field of each line that contains
  the pattern anywhere in the whole identifier (the dataset part included) and that, when
  a pool is given and is not the empty string, starts with the pool followed by \<^verbatim>\<open>@\<close> or
  by \<^verbatim>\<open>/\<close>.
\<close>

theorem load_snapshots_filters_whole_identifier:
  assumes "shell e list_cmd = (out, err, 0)"
  shows "fst (load_snapshots e pattern pool st)
           = Inr (filter (\<lambda>x. sublist pattern x \<and>
                      (case pool of None \<Rightarrow> True
                       | Some p \<Rightarrow> p = [] \<or> prefix (p @ ''@'') x \<or> prefix (p @ ''/'') x))
                    (map (takeWhile (\<lambda>c. c \<noteq> TAB)) (splitlines (strip out))))"
  by (simp add: load_snapshots_ok [OF assms] filter_lines_filter)

theorem load_snapshots_filters_whole_identifier_witness:
  "shell (test_env shell_dataset) list_cmd
     = (''tank/weekly@daily-1'' @ [TAB] @ ''8K'' @ [CHR 0x0A], [], 0)
   \<and> fst (load_snapshots (test_env shell_dataset) ''weekly'' (Some ''tank'') test_world)
       = Inr [''tank/weekly@daily-1'']
   \<and> fst (load_snapshots (test_env shell_dataset) ''weekly'' (Some ''pool'') test_world)
       = Inr []"
proof -
  have h: "shell (test_env shell_dataset) list_cmd
             = (''tank/weekly@daily-1'' @ [TAB] @ ''8K'' @ [CHR 0x0A], [], 0)"
    by (simp add: test_env_def shell_dataset_def)
  have e1: "filter (\<lambda>x. sublist ''weekly'' x \<and>
                      (case Some ''tank'' of None \<Rightarrow> True
                       | Some p \<Rightarrow> p = [] \<or> prefix (p @ ''@'') x \<or> prefix (p @ ''/'') x))
              (map (takeWhile (\<lambda>c. c \<noteq> TAB))
                 (splitlines (strip (''tank/weekly@daily-1'' @ [TAB] @ ''8K'' @ [CHR 0x0A]))))
            = [''tank/weekly@daily-1'']"
    by code_simp
  have e2: "filter (\<lambda>x. sublist ''weekly'' x \<and>
                      (case Some ''pool'' of None \<Rightarrow> True
                       | Some p \<Rightarrow> p = [] \<or> prefix (p @ ''@'') x \<or> prefix (p @ ''/'') x))
              (map (takeWhile (\<lambda>c. c \<noteq> TAB))
                 (splitlines (strip (''tank/weekly@daily-1'' @ [TAB] @ ''8K'' @ [CHR 0x0A]))))
            = []"
    by code_simp
  show ?thesis
    using h
      load_snapshots_filters_whole_identifier
        [OF h, of "''weekly''" "Some ''tank''" test_world]
      load_snapshots_filters_whole_identifier
        [OF h, of "''weekly''" "Some ''pool''" test_world]
    unfolding e1 e2 by blast
qed

text \<open>
  The claim as the specification states it fails: a daily snapshot of the dataset
  \<^verbatim>\<open>tank/weekly\<close> is kept for the pattern \<^verbatim>\<open>weekly\<close>, although the pattern does not
  occur in its name portion, the part after \<^verbatim>\<open>@\<close>.
\<close>

theorem pattern_in_dataset_counterexample:
  "fst (load_snapshots (test_env shell_dataset) ''weekly'' None test_world)
     = Inr [''tank/weekly@daily-1'']
   \<and> spec_name_portion ''tank/weekly@daily-1'' = ''daily-1''
   \<and> \<not> sublist ''weekly'' (spec_name_portion ''tank/weekly@daily-1'')"
  by code_simp

subsection \<open>The whole run\<close>

lemma load_config_has_recipient:
  "load_config e path st = Inr config \<Longrightarrow> config ''email_recipient'' \<noteq> None"
  by (auto simp: load_config_def DEFAULT_CONFIG_def map_add_def
      split: if_splits sum.splits option.splits)

lemma main_parse_failure:
  "arg_config a \<in> fs st \<Longrightarrow> safe_load e (arg_config a) = Inl YAMLError \<Longrightarrow>
     main e a st = (1, st)"
  by (simp add: main_def load_config_def exit_status_def)

lemma main_lock_held:
  assumes "load_config e (arg_config a) st = Inr config"
    and "config ''logfile'' = Some (Str logfile)"
    and "config ''lockfile'' = Some (Str lockfile)"
    and "lockfile \<in> insert logfile (fs st)"
  shows "main e a st
           = (1, st\<lparr>fs := insert logfile (fs st),
                    trace := trace st @ [Log ERROR ''Lock file exists. Script already running.'']\<rparr>)"
  using assms
  by (simp add: main_def path_of_def basicConfig_def lock_or_exit_def logging_def
        exit_status_def)

lemma main_listing_failed:
  assumes "load_config e (arg_config a) st = Inr config"
    and "config ''logfile'' = Some (Str logfile)"
    and "config ''lockfile'' = Some (Str lockfile)"
    and "lockfile \<notin> insert logfile (fs st)"
    and "age_days a config = Inr age"
    and "shell e list_cmd = (out, err, code)"
    and "code \<noteq> 0"
  shows "fst (main e a st) = 1
       \<and> run_events st (snd (main e a st))
           = [Create lockfile,
              Run list_cmd (strip out, strip err, code),
              Log ERROR (''Failed to list snapshots: '' @ strip err),
              Remove lockfile,
              Notifier logfile]
             @ (case config ''email_recipient'' of
                  Some (Str r) \<Rightarrow> if which_mail e then [Mail r] else []
                | _ \<Rightarrow> [])"
proof -
  obtain recipient where rc: "config ''email_recipient'' = Some recipient"
    using load_config_has_recipient [OF assms(1)] by auto
  have ne: "logfile \<noteq> lockfile"
    using assms(4) by auto
  show ?thesis
    using assms rc ne
    by (cases recipient)
       (simp_all add: main_def path_of_def basicConfig_def lock_or_exit_def
          try_finally_def main_try_def main_finally_def
          cleanup_snapshots_failed [OF assms(6,7)] os_remove_def send_email_def
          exit_status_def run_events_def Let_def)
qed

text \<open>
  Claim C3, as the code has it. Each fatal condition ends the run with exit status 1.
  A configuration file that does not parse ends it before anything is done. A lock that
  is already held ends it after the error is logged: the marker of the other run is not
  removed and the notifier is not invoked. A listing that fails, inside the guarded
  section, is followed by the release of the lock and then by the notifier.
\<close>

theorem fatal_conditions:
  "(arg_config a \<in> fs st \<and> safe_load e (arg_config a) = Inl YAMLError
      \<longrightarrow> main e a st = (1, st))
   \<and> (load_config e (arg_config a) st = Inr config
        \<and> config ''logfile'' = Some (Str logfile)
        \<and> config ''lockfile'' = Some (Str lockfile)
        \<and> lockfile \<in> insert logfile (fs st)
      \<longrightarrow> fst (main e a st) = 1
          \<and> run_events st (snd (main e a st))
              = [Log ERROR ''Lock file exists. Script already running.''])
   \<and> (load_config e (arg_config a) st = Inr config
        \<and> config ''logfile'' = Some (Str logfile)
        \<and> config ''lockfile'' = Some (Str lockfile)
        \<and> lockfile \<notin> insert logfile (fs st)
        \<and> age_days a config = Inr age
        \<and> shell e list_cmd = (out, err, code) \<and> code \<noteq> 0
      \<longrightarrow> fst (main e a st) = 1
          \<and> run_events st (snd (main e a st))
              = [Create lockfile,
                 Run list_cmd (strip out, strip err, code),
                 Log ERROR (''Failed to list snapshots: '' @ strip err),
                 Remove lockfile,
                 Notifier logfile]
                @ (case config ''email_recipient'' of
                     Some (Str r) \<Rightarrow> if which_mail e then [Mail r] else []
                   | _ \<Rightarrow> []))"
proof (intro conjI impI)
  assume "arg_config a \<in> fs st \<and> safe_load e (arg_config a) = Inl YAMLError"
  then show "main e a st = (1, st)"
    by (simp add: main_parse_failure)
next
  assume h: "load_config e (arg_config a) st = Inr config
        \<and> config ''logfile'' = Some (Str logfile)
        \<and> config ''lockfile'' = Some (Str lockfile)
        \<and> lockfile \<in> insert logfile (fs st)"
  then have m: "main e a st
           = (1, st\<lparr>fs := insert logfile (fs st),
                    trace := trace st @ [Log ERROR ''Lock file exists. Script already running.'']\<rparr>)"
    using main_lock_held [of e a st config logfile lockfile] by blast
  show "fst (main e a st) = 1"
    by (simp add: m)
  show "run_events st (snd (main e a st))
          = [Log ERROR ''Lock file exists. Script already running.'']"
    by (simp add: m run_events_def)
next
  assume h: "load_config e (arg_config a) st = Inr config
        \<and> config ''logfile'' = Some (Str logfile)
        \<and> config ''lockfile'' = Some (Str lockfile)
        \<and> lockfile \<notin> insert logfile (fs st)
        \<and> age_days a config = Inr age
        \<and> shell e list_cmd = (out, err, code) \<and> code \<noteq> 0"
  then have m: "fst (main e a st) = 1
       \<and> run_events st (snd (main e a st))
           = [Create lockfile,
              Run list_cmd (strip out, strip err, code),
              Log ERROR (''Failed to list snapshots: '' @ strip err),
              Remove lockfile,
              Notifier logfile]
             @ (case config ''email_recipient'' of
                  Some (Str r) \<Rightarrow> if which_mail e then [Mail r] else []
                | _ \<Rightarrow> [])"
    using main_listing_failed [of e a st config logfile lockfile age out err code] by blast
  show "fst (main e a st) = 1"
    using m by simp
  show "run_events st (snd (main e a st))
              = [Create lockfile,
                 Run list_cmd (strip out, strip err, code),
                 Log ERROR (''Failed to list snapshots: '' @ strip err),
                 Remove lockfile,
                 Notifier logfile]
                @ (case config ''email_recipient'' of
                     Some (Str r) \<Rightarrow> if which_mail e then [Mail r] else []
                   | _ \<Rightarrow> [])"
    using m by simp
qed

theorem fatal_conditions_witness:
  "arg_config (test_args False) \<in> fs world_with_config
   \<and> safe_load (test_env shell_daily) (arg_config (test_args False)) = Inl YAMLError
   \<and> main (test_env shell_daily) (test_args False) world_with_config = (1, world_with_config)
   \<and> load_config (test_env shell_daily) (arg_config (test_args False)) world_locked
       = Inr DEFAULT_CONFIG
   \<and> ''/var/run/zfs-killsnaps.lock'' \<in> insert ''/var/log/zfs-killsnaps.log'' (fs world_locked)
   \<and> fst (main (test_env shell_daily) (test_args False) world_locked) = 1
   \<and> run_events world_locked (snd (main (test_env shell_daily) (test_args False) world_locked))
       = [Log ERROR ''Lock file exists. Script already running.'']
   \<and> load_config (test_env shell_broken) (arg_config (test_args False)) test_world
       = Inr DEFAULT_CONFIG
   \<and> ''/var/run/zfs-killsnaps.lock'' \<notin> insert ''/var/log/zfs-killsnaps.log'' (fs test_world)
   \<and> age_days (test_args False) DEFAULT_CONFIG = Inr 30
   \<and> shell (test_env shell_broken) list_cmd = ([], ''cannot open pool'' @ [CHR 0x0A], 1)
   \<and> fst (main (test_env shell_broken) (test_args False) test_world) = 1
   \<and> run_events test_world (snd (main (test_env shell_broken) (test_args False) test_world))
       = [Create ''/var/run/zfs-killsnaps.lock'',
          Run list_cmd ([], ''cannot open pool'', 1),
          Log ERROR ''Failed to list snapshots: cannot open pool'',
          Remove ''/var/run/zfs-killsnaps.lock'',
          Notifier ''/var/log/zfs-killsnaps.log'',
          Mail ''admin@example.com'']"
proof -
  have a1: "arg_config (test_args False) \<in> fs world_with_config"
    by (simp add: test_args_def world_with_config_def)
  have a2: "safe_load (test_env shell_daily) (arg_config (test_args False)) = Inl YAMLError"
    by (simp add: test_env_def)
  have b1: "load_config (test_env shell_daily) (arg_config (test_args False)) world_locked
              = Inr DEFAULT_CONFIG"
    by (simp add: load_config_def test_args_def world_locked_def DEFAULT_CONFIG_PATH_def)
  have lg: "DEFAULT_CONFIG ''logfile'' = Some (Str ''/var/log/zfs-killsnaps.log'')"
    by (simp add: DEFAULT_CONFIG_def)
  have lk: "DEFAULT_CONFIG ''lockfile'' = Some (Str ''/var/run/zfs-killsnaps.lock'')"
    by (simp add: DEFAULT_CONFIG_def)
  have b2: "''/var/run/zfs-killsnaps.lock''
              \<in> insert ''/var/log/zfs-killsnaps.log'' (fs world_locked)"
    by (simp add: world_locked_def)
  have c1: "load_config (test_env shell_broken) (arg_config (test_args False)) test_world
              = Inr DEFAULT_CONFIG"
    by (simp add: load_config_def test_world_def)
  have c2: "''/var/run/zfs-killsnaps.lock''
              \<notin> insert ''/var/log/zfs-killsnaps.log'' (fs test_world)"
    by (simp add: test_world_def)
  have c3: "age_days (test_args False) DEFAULT_CONFIG = Inr 30"
    by (simp add: age_days_def get_policy_age_def test_args_def DEFAULT_CONFIG_def
          DEFAULT_POLICIES_def)
  have c4: "shell (test_env shell_broken) list_cmd = ([], ''cannot open pool'' @ [CHR 0x0A], 1)"
    by (simp add: test_env_def shell_broken_def)
  have s1: "strip [] = []" and s2: "strip (''cannot open pool'' @ [CHR 0x0A]) = ''cannot open pool''"
    by code_simp+
  have rc: "DEFAULT_CONFIG ''email_recipient'' = Some (Str ''admin@example.com'')"
    by (simp add: DEFAULT_CONFIG_def)
  have wm: "which_mail (test_env shell_broken)"
    by (simp add: test_env_def)
  note t1 = fatal_conditions
    [where a = "test_args False" and st = world_with_config and e = "test_env shell_daily",
     THEN conjunct1]
  note t2 = fatal_conditions
    [where a = "test_args False" and st = world_locked and e = "test_env shell_daily"
       and config = DEFAULT_CONFIG and logfile = "''/var/log/zfs-killsnaps.log''"
       and lockfile = "''/var/run/zfs-killsnaps.lock''",
     THEN conjunct2, THEN conjunct1]
  note t3 = fatal_conditions
    [where a = "test_args False" and st = test_world and e = "test_env shell_broken"
       and config = DEFAULT_CONFIG and logfile = "''/var/log/zfs-killsnaps.log''"
       and lockfile = "''/var/run/zfs-killsnaps.lock''" and age = 30
       and out = "[]" and err = "''cannot open pool'' @ [CHR 0x0A]" and code = 1,
     THEN conjunct2, THEN conjunct2]
  have r1: "main (test_env shell_daily) (test_args False) world_with_config
              = (1, world_with_config)"
    using t1 a1 a2 by blast
  have r2: "fst (main (test_env shell_daily) (test_args False) world_locked) = 1
     \<and> run_events world_locked (snd (main (test_env shell_daily) (test_args False) world_locked))
         = [Log ERROR ''Lock file exists. Script already running.'']"
    using t2 b1 lg lk b2 by blast
  have "fst (main (test_env shell_broken) (test_args False) test_world) = 1
     \<and> run_events test_world (snd (main (test_env shell_broken) (test_args False) test_world))
       = [Create ''/var/run/zfs-killsnaps.lock'',
          Run list_cmd (strip [], strip (''cannot open pool'' @ [CHR 0x0A]), 1),
          Log ERROR (''Failed to list snapshots: '' @ strip (''cannot open pool'' @ [CHR 0x0A])),
          Remove ''/var/run/zfs-killsnaps.lock'',
          Notifier ''/var/log/zfs-killsnaps.log'']
         @ (case DEFAULT_CONFIG ''email_recipient'' of
              Some (Str r) \<Rightarrow> if which_mail (test_env shell_broken) then [Mail r] else []
            | _ \<Rightarrow> [])"
    using t3 c1 lg lk c2 c3 c4 by simp
  then have r3: "fst (main (test_env shell_broken) (test_args False) test_world) = 1
     \<and> run_events test_world (snd (main (test_env shell_broken) (test_args False) test_world))
       = [Create ''/var/run/zfs-killsnaps.lock'',
          Run list_cmd ([], ''cannot open pool'', 1),
          Log ERROR ''Failed to list snapshots: cannot open pool'',
          Remove ''/var/run/zfs-killsnaps.lock'',
          Notifier ''/var/log/zfs-killsnaps.log'',
          Mail ''admin@example.com'']"
    unfolding s1 s2 rc using wm by simp
  show ?thesis
    using a1 a2 r1 b1 b2 r2 c1 c2 c3 c4 r3 by blast
qed

text \<open>
  The claim as the specification states it fails when the lock is already held: the run
  exits with status 1 after logging the error, and neither a lock release nor the
  notifier follows.
\<close>

theorem lock_held_counterexample:
  "fst (main (test_env shell_daily) (test_args False) world_locked) = 1
   \<and> trace (snd (main (test_env shell_daily) (test_args False) world_locked))
       = [Log ERROR ''Lock file exists. Script already running.'']
   \<and> filter is_release
        (trace (snd (main (test_env shell_daily) (test_args False) world_locked))) = []
   \<and> filter is_notifier
        (trace (snd (main (test_env shell_daily) (test_args False) world_locked))) = []"
  by code_simp

text \<open>
  Claim C1. The listing has two weekly snapshots; the creation time of the first is
  fetched with status 0 but is the string \<^verbatim>\<open>-\<close>, which \<^verbatim>\<open>strptime\<close> rejects. The
  ValueError is not caught: the run ends with exit status 1 after the lock release and
  the notification, no warning is logged, and the second snapshot is never examined.
\<close>

theorem unparsable_creation_aborts_run:
  "fst (main (test_env shell_unparsable) (test_args False) test_world) = 1
   \<and> trace (snd (main (test_env shell_unparsable) (test_args False) test_world))
       = [Create ''/var/run/zfs-killsnaps.lock'',
          Run list_cmd (''tank@weekly-1'' @ [CHR 0x0A] @ ''tank@weekly-2'', [], 0),
          Run (creation_cmd ''tank@weekly-1'') (''-'', [], 0),
          Remove ''/var/run/zfs-killsnaps.lock'',
          Notifier ''/var/log/zfs-killsnaps.log'',
          Mail ''admin@example.com'']"
  by code_simp

end
